theory Spec2Isabelle
  imports Complex_Main "HOL-Library.Monad_Syntax"
begin

section \<open>cvodes.h: return codes and basic constants\<close>

text \<open>
  The anonymous enumerations of \<^verbatim>\<open>cvodes.h\<close>. A C enumeration constant is an
  \<^verbatim>\<open>int\<close>; the values are the ones written in the header.

  \<^verbatim>\<open>enum { SUCCESS=0, TSTOP_RETURN=1, CVODE_NO_MEM=-1, CVODE_NO_MALLOC=-2,
         ILL_INPUT=-3, TOO_MUCH_WORK=-4, TOO_MUCH_ACC=-5, ERR_FAILURE=-6,
         CONV_FAILURE=-7, SETUP_FAILURE=-8, SOLVE_FAILURE=-9 };\<close>
\<close>

definition SUCCESS :: int where "SUCCESS = 0"
definition TSTOP_RETURN :: int where "TSTOP_RETURN = 1"
definition CVODE_NO_MEM :: int where "CVODE_NO_MEM = -1"
definition CVODE_NO_MALLOC :: int where "CVODE_NO_MALLOC = -2"
definition ILL_INPUT :: int where "ILL_INPUT = -3"
definition TOO_MUCH_WORK :: int where "TOO_MUCH_WORK = -4"
definition TOO_MUCH_ACC :: int where "TOO_MUCH_ACC = -5"
definition ERR_FAILURE :: int where "ERR_FAILURE = -6"
definition CONV_FAILURE :: int where "CONV_FAILURE = -7"
definition SETUP_FAILURE :: int where "SETUP_FAILURE = -8"
definition SOLVE_FAILURE :: int where "SOLVE_FAILURE = -9"

text \<open>
  \<^verbatim>\<open>enum { OKAY=0, CVG_NO_MEM=-1, CVG_NO_SLDET=-2, BAD_K=-3, BAD_T=-4, BAD_DKY=-5,
         BAD_IS=-6, CVG_NO_QUAD=-7, CVG_NO_SENS=-8 };\<close>
\<close>

definition OKAY :: int where "OKAY = 0"
definition CVG_NO_MEM :: int where "CVG_NO_MEM = -1"
definition CVG_NO_SLDET :: int where "CVG_NO_SLDET = -2"
definition BAD_K :: int where "BAD_K = -3"
definition BAD_T :: int where "BAD_T = -4"
definition BAD_DKY :: int where "BAD_DKY = -5"
definition BAD_IS :: int where "BAD_IS = -6"
definition CVG_NO_QUAD :: int where "CVG_NO_QUAD = -7"
definition CVG_NO_SENS :: int where "CVG_NO_SENS = -8"

text \<open>\<^verbatim>\<open>enum {CVREI_NO_MEM = -1, CVREI_NO_MALLOC = -2, CVREI_ILL_INPUT = -3};\<close>\<close>

definition CVREI_NO_MEM :: int where "CVREI_NO_MEM = -1"
definition CVREI_NO_MALLOC :: int where "CVREI_NO_MALLOC = -2"
definition CVREI_ILL_INPUT :: int where "CVREI_ILL_INPUT = -3"

text \<open>
  \<^verbatim>\<open>#define ADAMS_Q_MAX 12
  #define BDF_Q_MAX    5
  #define Q_MAX  ADAMS_Q_MAX
  #define L_MAX  (Q_MAX+1)
  #define NUM_TESTS    5\<close>
\<close>

definition ADAMS_Q_MAX :: int where "ADAMS_Q_MAX = 12"
definition BDF_Q_MAX :: int where "BDF_Q_MAX = 5"
definition Q_MAX :: int where "Q_MAX = ADAMS_Q_MAX"
definition L_MAX :: int where "L_MAX = Q_MAX + 1"
definition NUM_TESTS :: int where "NUM_TESTS = 5"

text \<open>
  The extents of the fixed-size arrays of \<^verbatim>\<open>struct CVodeMemRec\<close>, as declared:
  \<^verbatim>\<open>N_Vector cv_zn[L_MAX]\<close>, \<^verbatim>\<open>realtype cv_tau[L_MAX+1]\<close>,
  \<^verbatim>\<open>realtype cv_tq[NUM_TESTS+1]\<close>, \<^verbatim>\<open>realtype cv_l[L_MAX]\<close>.
  An array declared with extent \<open>n\<close> has the elements \<open>0 .. n - 1\<close>.
\<close>

definition cv_zn_extent :: int where "cv_zn_extent = L_MAX"
definition cv_tau_extent :: int where "cv_tau_extent = L_MAX + 1"
definition cv_tq_extent :: int where "cv_tq_extent = NUM_TESTS + 1"
definition cv_l_extent :: int where "cv_l_extent = L_MAX"

section \<open>Memory: arrays with checked access\<close>

text \<open>
  A C array is a list; a pointer into a block is an offset from the start of the block.
  An access outside the block is undefined behaviour in C and is the value \<open>None\<close> here,
  and every function that touches memory returns an \<open>option\<close>: \<open>None\<close> means that the
  source would have read or written outside a block. \<^verbatim>\<open>long int\<close> is \<open>int\<close>; the
  source's arithmetic on dimensions is assumed not to overflow.
\<close>

definition load :: "'a list \<Rightarrow> int \<Rightarrow> 'a option" where
  "load a i = (if 0 \<le> i \<and> i < int (length a) then Some (a ! nat i) else None)"

definition store :: "'a list \<Rightarrow> int \<Rightarrow> 'a \<Rightarrow> 'a list option" where
  "store a i v = (if 0 \<le> i \<and> i < int (length a) then Some (a[nat i := v]) else None)"

text \<open>
  \<^verbatim>\<open>for (i = lo; i < hi; i++) body\<close>, with the state the body updates passed along.
  (A loop \<^verbatim>\<open>for (i = is; i <= ie; i++)\<close> is \<open>for_loop is (ie + 1)\<close>.)
\<close>

function for_loop :: "int \<Rightarrow> int \<Rightarrow> (int \<Rightarrow> 's \<Rightarrow> 's option) \<Rightarrow> 's \<Rightarrow> 's option" where
  "for_loop i n body s =
     (if i < n then (case body i s of None \<Rightarrow> None | Some s' \<Rightarrow> for_loop (i + 1) n body s')
      else Some s)"
  by pat_completeness auto
termination
  by (relation "measure (\<lambda>(i, n, body, s). nat (n - i))") auto

declare for_loop.simps [simp del]

section \<open>realtype\<close>

text \<open>
  \<^verbatim>\<open>realtype\<close> is a floating-point type (\<^verbatim>\<open>sundials_types.h\<close>, which is not among the
  sources: \<^verbatim>\<open>double\<close> unless configured otherwise). A value is a finite number, one of the
  two infinities, or a NaN. A finite value is the real number it stands for, and the
  arithmetic on finite values is the arithmetic of the real numbers: rounding, overflow
  and the sign of zero are not modelled. The infinities and NaN follow IEEE 754:
  \<open>inf - inf\<close> and \<open>0 * inf\<close> are NaN, and NaN absorbs. \<^verbatim>\<open>ZERO\<close> and \<^verbatim>\<open>ONE\<close>
  (\<^verbatim>\<open>RCONST(0.0)\<close>, \<^verbatim>\<open>RCONST(1.0)\<close>) are \<open>0\<close> and \<open>1\<close>.
\<close>

datatype realtype = Finite real | PlusInf | MinusInf | NaN

instantiation realtype :: "{zero, one, plus, times}"
begin

definition zero_realtype :: realtype where
  "zero_realtype = Finite 0"

definition one_realtype :: realtype where
  "one_realtype = Finite 1"

fun plus_realtype :: "realtype \<Rightarrow> realtype \<Rightarrow> realtype" where
  "plus_realtype (Finite a) (Finite b) = Finite (a + b)"
| "plus_realtype (Finite a) PlusInf = PlusInf"
| "plus_realtype (Finite a) MinusInf = MinusInf"
| "plus_realtype PlusInf (Finite b) = PlusInf"
| "plus_realtype MinusInf (Finite b) = MinusInf"
| "plus_realtype PlusInf PlusInf = PlusInf"
| "plus_realtype MinusInf MinusInf = MinusInf"
| "plus_realtype PlusInf MinusInf = NaN"
| "plus_realtype MinusInf PlusInf = NaN"
| "plus_realtype NaN b = NaN"
| "plus_realtype a NaN = NaN"

fun times_realtype :: "realtype \<Rightarrow> realtype \<Rightarrow> realtype" where
  "times_realtype (Finite a) (Finite b) = Finite (a * b)"
| "times_realtype (Finite a) PlusInf = (if 0 < a then PlusInf else if a < 0 then MinusInf else NaN)"
| "times_realtype (Finite a) MinusInf = (if 0 < a then MinusInf else if a < 0 then PlusInf else NaN)"
| "times_realtype PlusInf (Finite b) = (if 0 < b then PlusInf else if b < 0 then MinusInf else NaN)"
| "times_realtype MinusInf (Finite b) = (if 0 < b then MinusInf else if b < 0 then PlusInf else NaN)"
| "times_realtype PlusInf PlusInf = PlusInf"
| "times_realtype MinusInf MinusInf = PlusInf"
| "times_realtype PlusInf MinusInf = MinusInf"
| "times_realtype MinusInf PlusInf = MinusInf"
| "times_realtype NaN b = NaN"
| "times_realtype a NaN = NaN"

instance ..

end

instance realtype :: comm_monoid_add
proof
  fix u v w :: realtype
  show "0 + u = u" by (cases u) (simp_all add: zero_realtype_def)
  show "u + v = v + u" by (cases u; cases v) simp_all
  show "u + v + w = u + (v + w)" by (cases u; cases v; cases w) simp_all
qed

section \<open>sunmatrix_band: the band matrix\<close>

text \<open>
  \<^verbatim>\<open>SUNMatrix_ID\<close> and the vector IDs are declared in headers that are not among the
  sources (\<^verbatim>\<open>sundials_matrix.h\<close>, \<^verbatim>\<open>sundials_nvector.h\<close>). The band module compares
  an ID only with the constants named here; every other ID is an \<open>OTHER\<close> value.
\<close>

datatype SUNMatrix_ID = SUNMATRIX_BAND | SUNMATRIX_OTHER nat

datatype N_Vector_ID =
  SUNDIALS_NVEC_SERIAL | SUNDIALS_NVEC_OPENMP | SUNDIALS_NVEC_PTHREADS | SUNDIALS_NVEC_OTHER nat

text \<open>
  \<^verbatim>\<open>struct _SUNMatrixContent_Band\<close>. \<open>data\<close> is the block the field points to; an
  element of \<open>cols\<close> is a pointer into that block, kept as its offset from \<open>data\<close>.
\<close>

record SUNMatrixContent_Band =
  M :: int
  N :: int
  ldim :: int
  mu :: int
  ml :: int
  s_mu :: int
  data :: "realtype list"
  ldata :: int
  cols :: "int list"

text \<open>
  The generic \<^verbatim>\<open>SUNMatrix\<close>: its content and, of its table of operations, the ID that
  \<^verbatim>\<open>ops->getid\<close> returns (\<^verbatim>\<open>SUNMatrixGetID(A)\<close> calls it).
\<close>

record SUNMatrix =
  content :: SUNMatrixContent_Band
  getid :: SUNMatrix_ID













text \<open>
  What a call has done to the C heap: the number of \<^verbatim>\<open>malloc\<close> calls made and the
  number of \<^verbatim>\<open>free\<close> calls made.
\<close>

record heap_use =
  n_malloc :: nat
  n_free :: nat

text \<open>
  \<^verbatim>\<open>SUNMatrixNew_Band\<close>. \<open>malloc_ok k\<close> says whether the \<open>k\<close>-th \<^verbatim>\<open>malloc\<close> of the call
  (counted from 0) succeeds; \<open>junk\<close> and \<open>junkp\<close> are what the fresh blocks for \<open>data\<close>
  and \<open>cols\<close> happen to hold (\<^verbatim>\<open>malloc\<close> does not initialise). The result is \<open>None\<close> for
  the C value \<^verbatim>\<open>NULL\<close>.
\<close>

definition SUNMatrixNew_Band ::
  "(nat \<Rightarrow> bool) \<Rightarrow> (nat \<Rightarrow> realtype) \<Rightarrow> (nat \<Rightarrow> int) \<Rightarrow> int \<Rightarrow> int \<Rightarrow> int \<Rightarrow> int
     \<Rightarrow> (SUNMatrix option \<times> heap_use) option" where
  "SUNMatrixNew_Band malloc_ok junk junkp n u l su =
     (if n \<le> 0 \<or> su < 0 \<or> l < 0 then Some (None, \<lparr>n_malloc = 0, n_free = 0\<rparr>)
      else if \<not> malloc_ok 0 then Some (None, \<lparr>n_malloc = 1, n_free = 0\<rparr>)
      else if \<not> malloc_ok 1 then Some (None, \<lparr>n_malloc = 2, n_free = 1\<rparr>)
      else if \<not> malloc_ok 2 then Some (None, \<lparr>n_malloc = 3, n_free = 2\<rparr>)
      else
        let colSize = su + l + 1 in
        if \<not> malloc_ok 3 then Some (None, \<lparr>n_malloc = 4, n_free = 3\<rparr>)
        else if \<not> malloc_ok 4 then Some (None, \<lparr>n_malloc = 5, n_free = 4\<rparr>)
        else do {
          cs \<leftarrow> for_loop 0 n (\<lambda>j cs. store cs j (j * colSize)) (map junkp [0..<nat n]);
          Some (Some \<lparr>content =
                        \<lparr>M = n, N = n, ldim = colSize, mu = u, ml = l, s_mu = su,
                         data = map junk [0..<nat (n * colSize)], ldata = n * colSize,
                         cols = cs\<rparr>,
                      getid = SUNMATRIX_BAND\<rparr>,
                \<lparr>n_malloc = 5, n_free = 0\<rparr>)
        })"

text \<open>
  What \<^verbatim>\<open>SUNMatrixNew_Band\<close> establishes and the operations below keep: the shape of a
  band matrix. Nothing in it constrains \<open>mu\<close>.
\<close>

definition band_shape :: "SUNMatrix \<Rightarrow> bool" where
  "band_shape A =
     (getid A = SUNMATRIX_BAND \<and> 0 < N (content A) \<and> M (content A) = N (content A)
      \<and> 0 \<le> ml (content A) \<and> 0 \<le> s_mu (content A)
      \<and> ldim (content A) = s_mu (content A) + ml (content A) + 1
      \<and> ldata (content A) = N (content A) * ldim (content A)
      \<and> int (length (data (content A))) = ldata (content A)
      \<and> cols (content A) = map (\<lambda>j. j * ldim (content A)) [0..N (content A) - 1])"













section \<open>cvodes: the integrator memory and the vector operations\<close>

text \<open>
  \<^verbatim>\<open>enum { ADAMS, BDF }\<close>, \<^verbatim>\<open>enum { FUNCTIONAL, NEWTON }\<close>, \<^verbatim>\<open>enum { SS, SV }\<close> of
  \<^verbatim>\<open>cvodes.h\<close>.
\<close>

datatype lmm_type = ADAMS | BDF

datatype iter_type = FUNCTIONAL | NEWTON

datatype itol_type = SS | SV

text \<open>
  Modelled from the spec: the vector operations of the vector abstraction (spec 4.1:
  scale, linear sum, absolute value, inverse, constant fill, weighted root-mean-square
  norm). \<^verbatim>\<open>nvector.h\<close> and its implementations are not among the sources. A vector is
  the list of its components, each a real number: in this part the values are finite
  and the arithmetic is exact (rounding is not modelled).
\<close>

definition N_VScale :: "real \<Rightarrow> real list \<Rightarrow> real list" where
  "N_VScale c x = map (\<lambda>a. c * a) x"

definition N_VLinearSum :: "real \<Rightarrow> real list \<Rightarrow> real \<Rightarrow> real list \<Rightarrow> real list" where
  "N_VLinearSum a x b y = map (\<lambda>(u, v). a * u + b * v) (zip x y)"

definition N_VAbs :: "real list \<Rightarrow> real list" where
  "N_VAbs x = map (\<lambda>a. \<bar>a\<bar>) x"

definition N_VAddConst :: "real list \<Rightarrow> real \<Rightarrow> real list" where
  "N_VAddConst x b = map (\<lambda>a. a + b) x"

definition N_VInv :: "real list \<Rightarrow> real list" where
  "N_VInv x = map (\<lambda>a. 1 / a) x"

definition N_VConst :: "real \<Rightarrow> nat \<Rightarrow> real list" where
  "N_VConst c n = replicate n c"

fun sum_squares :: "real list \<Rightarrow> real list \<Rightarrow> real \<Rightarrow> real" where
  "sum_squares (a # x) (b # w) acc = sum_squares x w (acc + (a * b) * (a * b))"
| "sum_squares x w acc = acc"

definition N_VWrmsNorm :: "real list \<Rightarrow> real list \<Rightarrow> real" where
  "N_VWrmsNorm x w = sqrt (sum_squares x w 0 / real (length x))"

text \<open>
  The part of \<^verbatim>\<open>struct CVodeMemRec\<close> (\<^verbatim>\<open>cvodes.h\<close>) that the operations below read or
  write, with the names of the structure. \<open>cv_zn\<close> holds the columns of the Nordsieck
  array that are allocated, \<open>zn[0]\<close> first. \<^verbatim>\<open>itol\<close> says which of the two forms of the
  absolute tolerance \<^verbatim>\<open>cv_abstol\<close> points to: the scalar \<open>cv_abstol_s\<close> for \<open>SS\<close>, the
  vector \<open>cv_abstol_v\<close> for \<open>SV\<close>.
\<close>

record CVodeMem =
  cv_lmm :: lmm_type
  cv_iter :: iter_type
  cv_itol :: itol_type
  cv_reltol :: real
  cv_abstol_s :: real
  cv_abstol_v :: "real list"
  cv_zn :: "real list list"
  cv_ewt :: "real list"
  cv_q :: int
  cv_h :: real
  cv_tn :: real
  cv_qmax :: int
  cv_mxstep :: int
  cv_nst :: int
  cv_qu :: int
  cv_hu :: real
  cv_MallocDone :: bool

text \<open>
  The state after a successful step (spec 3: \<open>1 \<le> q \<le> qmax\<close>, and after a successful step
  \<open>qu = q\<close>, \<open>hu = h\<close>): the columns \<open>zn[0..q]\<close> are there, within the declared extent of
  \<^verbatim>\<open>cv_zn\<close>, and all have the problem dimension.
\<close>

definition after_step :: "CVodeMem \<Rightarrow> bool" where
  "after_step m =
     (cv_qu m = cv_q m \<and> cv_hu m = cv_h m \<and> cv_h m \<noteq> 0 \<and> 1 \<le> cv_q m \<and> cv_q m \<le> cv_qmax m
      \<and> cv_qmax m < int (length (cv_zn m)) \<and> int (length (cv_zn m)) \<le> cv_zn_extent
      \<and> list_all (\<lambda>z. length z = length (cv_zn m ! 0)) (cv_zn m))"

section \<open>cvodes: dense output\<close>

text \<open>
  Modelled from the spec: \<^verbatim>\<open>CVodeGetDky\<close>. \<^verbatim>\<open>cvodes.c\<close> is not among the sources;
  \<^verbatim>\<open>cvodes.h\<close> declares and documents the function. The spec (4.6, 8) and the header:
  the \<open>k\<close>-th derivative by Horner evaluation over \<open>Z\<close>, legal for \<open>t\<close> in \<open>[tn - hu, tn]\<close> and
  \<open>k\<close> in \<open>[0, qu]\<close>; \<open>BAD_K\<close> when \<open>k\<close> is not in \<open>0, 1, ..., qu\<close>, \<open>BAD_T\<close> when \<open>t\<close> is not in
  the interval, \<open>BAD_DKY\<close> when the \<open>dky\<close> argument is \<^verbatim>\<open>NULL\<close>.

  Neither the spec nor the header says in which order the three tests are made. The
  order is the parameter \<open>order\<close>: the tests it lists are made first, in the order of the
  list, and the tests it does not list follow; the code returned is the code of the first
  test that fails. So every statement about \<open>CVodeGetDky order\<close> for all \<open>order\<close> holds
  whatever the order of the tests.

  The integration may go backward (spec 8: \<open>tn\<close> is monotone in the sign of \<open>h\<close>, and
  \<open>get_dky(tn, 0, v)\<close> returns \<open>Z[0]\<close>), so the interval of the last step is the set of the
  times between \<open>tn - hu\<close> and \<open>tn\<close>, whichever of the two is the smaller.

  The output vector \<open>dky\<close> is \<open>None\<close> for \<^verbatim>\<open>NULL\<close>; the result is the return value and
  the output vector afterwards.

  Column \<open>j\<close> of \<open>Z\<close> belongs to the power \<open>s^j\<close> of \<open>s = (t - tn) / h\<close>. The \<open>k\<close>-th
  derivative with respect to \<open>s\<close> has the coefficient \<open>j (j-1) ... (j-k+1)\<close> at \<open>s^(j-k)\<close>;
  the sum is evaluated from the highest column down, and divided by \<open>h^k\<close>.
\<close>

function dky_coeff_loop :: "int \<Rightarrow> int \<Rightarrow> real \<Rightarrow> real" where
  "dky_coeff_loop i lo c = (if lo \<le> i then dky_coeff_loop (i - 1) lo (c * of_int i) else c)"
  by pat_completeness auto
termination
  by (relation "measure (\<lambda>(i, lo, c). nat (i + 1 - lo))") auto

declare dky_coeff_loop.simps [simp del]

definition dky_coeff :: "int \<Rightarrow> int \<Rightarrow> real" where
  "dky_coeff j k = dky_coeff_loop j (j - k + 1) 1"

function dky_loop :: "real list list \<Rightarrow> int \<Rightarrow> int \<Rightarrow> real \<Rightarrow> int \<Rightarrow> real list \<Rightarrow> real list" where
  "dky_loop zn q k s j dky =
     (if k \<le> j then
        dky_loop zn q k s (j - 1)
          (if j = q then N_VScale (dky_coeff j k) (zn ! nat j)
           else N_VLinearSum (dky_coeff j k) (zn ! nat j) s dky)
      else dky)"
  by pat_completeness auto
termination
  by (relation "measure (\<lambda>(zn, q, k, s, j, dky). nat (j + 1 - k))") auto

declare dky_loop.simps [simp del]

definition dky_value :: "CVodeMem \<Rightarrow> real \<Rightarrow> int \<Rightarrow> real list" where
  "dky_value m t k =
     (let s = (t - cv_tn m) / cv_h m;
          dky = dky_loop (cv_zn m) (cv_q m) k s (cv_q m) []
      in if k = 0 then dky else N_VScale (1 / cv_h m ^ nat k) dky)"

datatype dky_test = TEST_DKY | TEST_K | TEST_T

definition in_last_step :: "CVodeMem \<Rightarrow> real \<Rightarrow> bool" where
  "in_last_step m t =
     (min (cv_tn m - cv_hu m) (cv_tn m) \<le> t \<and> t \<le> max (cv_tn m - cv_hu m) (cv_tn m))"

fun dky_test_fails :: "CVodeMem \<Rightarrow> real \<Rightarrow> int \<Rightarrow> real list option \<Rightarrow> dky_test \<Rightarrow> bool" where
  "dky_test_fails m t k dky TEST_DKY = (dky = None)"
| "dky_test_fails m t k dky TEST_K = (k < 0 \<or> k > cv_qu m)"
| "dky_test_fails m t k dky TEST_T = (\<not> in_last_step m t)"

fun dky_test_code :: "dky_test \<Rightarrow> int" where
  "dky_test_code TEST_DKY = BAD_DKY"
| "dky_test_code TEST_K = BAD_K"
| "dky_test_code TEST_T = BAD_T"

fun dky_tests :: "dky_test list \<Rightarrow> CVodeMem \<Rightarrow> real \<Rightarrow> int \<Rightarrow> real list option \<Rightarrow> int" where
  "dky_tests [] m t k dky = OKAY"
| "dky_tests (c # cs) m t k dky =
     (if dky_test_fails m t k dky c then dky_test_code c else dky_tests cs m t k dky)"

definition CVodeGetDky ::
  "dky_test list \<Rightarrow> CVodeMem \<Rightarrow> real \<Rightarrow> int \<Rightarrow> real list option \<Rightarrow> int \<times> real list option" where
  "CVodeGetDky order m t k dky =
     (let flag = dky_tests (order @ [TEST_DKY, TEST_K, TEST_T]) m t k dky
      in if flag \<noteq> OKAY then (flag, dky) else (OKAY, Some (dky_value m t k)))"

text \<open>
  A memory after a successful step, for trying the dense output: dimension 2, order 2,
  step 1/2, at time 1.
\<close>

definition cv_mem_example :: CVodeMem where
  "cv_mem_example =
     \<lparr>cv_lmm = BDF, cv_iter = NEWTON, cv_itol = SS, cv_reltol = 1 / 1000, cv_abstol_s = 1 / 1000000,
      cv_abstol_v = [], cv_zn = [[1, 2], [3, 4], [5, 6]], cv_ewt = [1, 1], cv_q = 2, cv_h = 1 / 2,
      cv_tn = 1, cv_qmax = 2, cv_mxstep = 500, cv_nst = 1, cv_qu = 2, cv_hu = 1 / 2,
      cv_MallocDone = True\<rparr>"

section \<open>cvodes: error weights and the step attempt\<close>

text \<open>
  Modelled from the spec: the error weight vector. \<^verbatim>\<open>cvodes.c\<close> is not among the sources.
  The formula is the one of the documentation of \<^verbatim>\<open>CVodeMalloc\<close> in \<^verbatim>\<open>cvodes.h\<close> and of
  the glossary of the spec: \<open>ewt[i] = 1 / (rtol * |y[i]| + atol)\<close> for \<open>SS\<close> and
  \<open>ewt[i] = 1 / (rtol * |y[i]| + atol[i])\<close> for \<open>SV\<close>, built from the vector operations.
  (In HOL \<open>1 / 0 = 0\<close>: a component whose denominator is zero counts as not positive.)
\<close>

definition CVEwtSetSS :: "real \<Rightarrow> real \<Rightarrow> real list \<Rightarrow> real list" where
  "CVEwtSetSS rtol atol ycur = N_VInv (N_VAddConst (N_VScale rtol (N_VAbs ycur)) atol)"

definition CVEwtSetSV :: "real \<Rightarrow> real list \<Rightarrow> real list \<Rightarrow> real list" where
  "CVEwtSetSV rtol atol ycur = N_VInv (N_VLinearSum rtol (N_VAbs ycur) 1 atol)"

definition CVEwtSet :: "CVodeMem \<Rightarrow> real list \<Rightarrow> real list" where
  "CVEwtSet m ycur =
     (case cv_itol m of
        SS \<Rightarrow> CVEwtSetSS (cv_reltol m) (cv_abstol_s m) ycur
      | SV \<Rightarrow> CVEwtSetSV (cv_reltol m) (cv_abstol_v m) ycur)"


text \<open>
  Modelled from the spec: one step attempt (spec 4.5), as far as the error weights go.
  Step 2 computes \<open>ewt\<close> from \<open>(rtol, atol, itol, Z[0])\<close> and asserts positivity: a component
  that is not positive gives \<open>ILL_INPUT\<close>. Steps 3 to 8 (predictor, coefficients, corrector,
  error test, accept or reject) are the parameter \<open>rest\<close>, which returns a return code and
  the new memory; they do not write \<open>ewt\<close> (spec 3: \<open>ewt\<close> is recomputed each step), so the
  weights in the memory after the attempt are those of step 2. Step 1 (the warning when
  \<open>t + h = t\<close>) changes nothing that is modelled. The third component of the result is
  the record of the attempt: the memory after step 2, and whether steps 3 to 8 were run.
\<close>

definition CVEwtSet_step :: "CVodeMem \<Rightarrow> CVodeMem" where
  "CVEwtSet_step m = m\<lparr>cv_ewt := CVEwtSet m (cv_zn m ! 0)\<rparr>"






section \<open>cvodes: the Newton corrector and the linear solver's setup\<close>

definition FAIL_OTHER :: int where "FAIL_OTHER = 2"





section \<open>cvodes: re-initialisation\<close>

text \<open>
  Modelled from the spec: \<^verbatim>\<open>CVodeReInit\<close>. \<^verbatim>\<open>cvodes.c\<close> is not among the sources;
  \<^verbatim>\<open>cvodes.h\<close> declares and documents the function. It re-initialises the memory for a
  problem of the same size, with the same input checking as \<^verbatim>\<open>CVodeMalloc\<close>, and does no
  memory allocation. It returns \<open>CVREI_NO_MEM\<close> for a \<^verbatim>\<open>NULL\<close> memory, \<open>CVREI_NO_MALLOC\<close>
  when \<^verbatim>\<open>CVodeMalloc\<close> has not been called, and \<open>CVREI_ILL_INPUT\<close> for an illegal input,
  "including an attempt to increase maxord": the maximum order must be no larger for the
  new problem than for the problem of the last call to \<^verbatim>\<open>CVodeMalloc\<close>.

  The prototype has no argument for the maximum order: the maximum order of the new
  problem is the field \<open>cv_qmax\<close> (which \<^verbatim>\<open>CVodeSetMaxOrd\<close> sets), and the maximum order of
  the last \<^verbatim>\<open>CVodeMalloc\<close> is the one the Nordsieck array was allocated for, columns
  \<open>zn[0..qmax]\<close>. \<open>legal\<close> stands for the outcome of the other input checks, which the spec
  does not list. The result is the return value, the memory afterwards and the use of
  the heap.
\<close>

definition qmax_alloc :: "CVodeMem \<Rightarrow> int" where
  "qmax_alloc m = int (length (cv_zn m)) - 1"

definition CVodeReInit ::
  "CVodeMem option \<Rightarrow> bool \<Rightarrow> real \<Rightarrow> real list \<Rightarrow> itol_type \<Rightarrow> real \<Rightarrow> real \<Rightarrow> real list
     \<Rightarrow> int \<times> CVodeMem option \<times> heap_use" where
  "CVodeReInit cvode_mem legal t0 y0 itol reltol abstol_s abstol_v =
     (case cvode_mem of
        None \<Rightarrow> (CVREI_NO_MEM, None, \<lparr>n_malloc = 0, n_free = 0\<rparr>)
      | Some m \<Rightarrow>
          if \<not> cv_MallocDone m then (CVREI_NO_MALLOC, Some m, \<lparr>n_malloc = 0, n_free = 0\<rparr>)
          else if \<not> legal then (CVREI_ILL_INPUT, Some m, \<lparr>n_malloc = 0, n_free = 0\<rparr>)
          else if cv_qmax m > qmax_alloc m
            then (CVREI_ILL_INPUT, Some m, \<lparr>n_malloc = 0, n_free = 0\<rparr>)
          else (SUCCESS,
                Some (m\<lparr>cv_itol := itol, cv_reltol := reltol, cv_abstol_s := abstol_s,
                        cv_abstol_v := abstol_v, cv_zn := (cv_zn m)[0 := y0], cv_q := 1,
                        cv_tn := t0, cv_nst := 0, cv_qu := 0, cv_hu := 0\<rparr>),
                \<lparr>n_malloc = 0, n_free = 0\<rparr>))"

section \<open>Return codes\<close>

text \<open>
  Claim C1. The return-code enumeration of \<^verbatim>\<open>CVode\<close> gives \<open>SUCCESS\<close> the value 0
  and \<open>TSTOP_RETURN\<close> the value 1; the nine failure codes are negative and pairwise
  distinct; the getter codes \<open>OKAY\<close>, \<open>BAD_K\<close>, \<open>BAD_T\<close>, \<open>BAD_DKY\<close> are pairwise
  distinct and \<open>OKAY\<close> is 0.
\<close>

theorem C1_return_codes:
  "SUCCESS = 0 \<and> TSTOP_RETURN = 1
   \<and> CVODE_NO_MEM < 0 \<and> CVODE_NO_MALLOC < 0 \<and> ILL_INPUT < 0 \<and> TOO_MUCH_WORK < 0
   \<and> TOO_MUCH_ACC < 0 \<and> ERR_FAILURE < 0 \<and> CONV_FAILURE < 0 \<and> SETUP_FAILURE < 0
   \<and> SOLVE_FAILURE < 0
   \<and> distinct [CVODE_NO_MEM, CVODE_NO_MALLOC, ILL_INPUT, TOO_MUCH_WORK, TOO_MUCH_ACC,
                ERR_FAILURE, CONV_FAILURE, SETUP_FAILURE, SOLVE_FAILURE]
   \<and> OKAY = 0 \<and> distinct [OKAY, BAD_K, BAD_T, BAD_DKY]"
  by (simp add: SUCCESS_def TSTOP_RETURN_def CVODE_NO_MEM_def CVODE_NO_MALLOC_def
      ILL_INPUT_def TOO_MUCH_WORK_def TOO_MUCH_ACC_def ERR_FAILURE_def CONV_FAILURE_def
      SETUP_FAILURE_def SOLVE_FAILURE_def OKAY_def BAD_K_def BAD_T_def BAD_DKY_def)

section \<open>Loops\<close>

lemma for_loop_done: "n \<le> i \<Longrightarrow> for_loop i n body s = Some s"
  by (simp add: for_loop.simps)

lemma for_loop_step:
  "i < n \<Longrightarrow> for_loop i n body s = (case body i s of None \<Rightarrow> None | Some s' \<Rightarrow> for_loop (i + 1) n body s')"
  by (subst for_loop.simps) simp

lemma for_loop_invariant:
  assumes "Inv lo s"
    and "\<And>i s. lo \<le> i \<Longrightarrow> i < hi \<Longrightarrow> Inv i s \<Longrightarrow> \<exists>s'. body i s = Some s' \<and> Inv (i + 1) s'"
  shows "\<exists>s'. for_loop lo hi body s = Some s' \<and> (if lo \<le> hi then Inv hi s' else s' = s)"
  using assms
proof (induction lo hi body s rule: for_loop.induct)
  case (1 i n body s)
  show ?case
  proof (cases "i < n")
    case False
    then show ?thesis using "1.prems"(1) by (cases "i = n") (simp_all add: for_loop_done)
  next
    case True
    from "1.prems"(2)[OF _ True "1.prems"(1)] obtain s1 where
      s1: "body i s = Some s1" "Inv (i + 1) s1" by auto
    have "\<exists>s'. for_loop (i + 1) n body s1 = Some s' \<and> (if i + 1 \<le> n then Inv n s' else s' = s1)"
      by (rule "1.IH"[OF True s1(1) s1(2)]) (use "1.prems"(2) in force)
    then show ?thesis using True s1 by (simp add: for_loop_step)
  qed
qed

section \<open>The constructor SUNMatrixNew_Band\<close>

lemma store_loop:
  assumes "int (length a) = n"
  shows "for_loop 0 n (\<lambda>i a. store a i (f i)) a = Some (map f [0..n - 1])"
proof -
  let ?Inv = "\<lambda>i b. length b = length a \<and> (\<forall>r. 0 \<le> r \<and> r < i \<longrightarrow> b ! nat r = f r)"
  have n0: "0 \<le> n" using assms by auto
  have "\<exists>b. for_loop 0 n (\<lambda>i a. store a i (f i)) a = Some b
          \<and> (if 0 \<le> n then ?Inv n b else b = a)"
  proof (rule for_loop_invariant[where Inv = ?Inv])
    show "?Inv 0 a" by auto
  next
    fix i b
    assume i: "0 \<le> i" "i < n" and inv: "?Inv i b"
    have "store b i (f i) = Some (b[nat i := f i])"
      using i inv assms by (simp add: store_def)
    moreover have "?Inv (i + 1) (b[nat i := f i])"
    proof (intro conjI allI impI)
      show "length (b[nat i := f i]) = length a" using inv by simp
    next
      fix r assume r: "0 \<le> r \<and> r < i + 1"
      show "b[nat i := f i] ! nat r = f r"
      proof (cases "r = i")
        case True
        then show ?thesis using i inv assms by simp
      next
        case False
        then have "nat r \<noteq> nat i" "r < i" using r i by auto
        then show ?thesis using inv r by simp
      qed
    qed
    ultimately show "\<exists>s'. store b i (f i) = Some s' \<and> ?Inv (i + 1) s'" by blast
  qed
  then obtain b where b: "for_loop 0 n (\<lambda>i a. store a i (f i)) a = Some b"
    "length b = length a" "\<And>r. 0 \<le> r \<Longrightarrow> r < n \<Longrightarrow> b ! nat r = f r"
    using n0 by auto
  have "b = map f [0..n - 1]"
  proof (rule nth_equalityI)
    show "length b = length (map f [0..n - 1])" using b(2) assms by auto
  next
    fix k assume "k < length b"
    then have k: "int k < n" using b(2) assms by simp
    then have "[0..n - 1] ! k = int k" by (subst nth_upto) simp_all
    then show "b ! k = map f [0..n - 1] ! k"
      using b(3)[of "int k"] k by simp
  qed
  then show ?thesis using b(1) by simp
qed

lemma cols_loop:
  assumes "0 \<le> n"
  shows "for_loop 0 n (\<lambda>j cs. store cs j (j * c)) (map junkp [0..<nat n])
           = Some (map (\<lambda>j. j * c) [0..n - 1])"
  by (rule store_loop) (use assms in simp)


lemma load_cols:
  "0 \<le> j \<Longrightarrow> j < n \<Longrightarrow> load (map (\<lambda>j. j * c) [0..n - 1]) j = Some (j * c)"
  by (simp add: load_def)

lemma new_band_ok:
  assumes "0 < n" "0 \<le> su" "0 \<le> l" "\<forall>k<5. malloc_ok k"
  shows "SUNMatrixNew_Band malloc_ok junk junkp n u l su =
     Some (Some \<lparr>content =
                        \<lparr>M = n, N = n, ldim = su + l + 1, mu = u, ml = l, s_mu = su,
                         data = map junk [0..<nat (n * (su + l + 1))], ldata = n * (su + l + 1),
                         cols = map (\<lambda>j. j * (su + l + 1)) [0..n - 1]\<rparr>,
                      getid = SUNMATRIX_BAND\<rparr>,
                \<lparr>n_malloc = 5, n_free = 0\<rparr>)"
proof -
  have m: "malloc_ok 0" "malloc_ok 1" "malloc_ok 2" "malloc_ok 3" "malloc_ok 4"
    using assms(4) by simp_all
  have n0: "0 \<le> n" using assms(1) by simp
  show ?thesis
    using assms(1-3) m by (simp add: SUNMatrixNew_Band_def Let_def cols_loop[OF n0])
qed

lemma new_band_shape:
  assumes "0 < n" "0 \<le> su" "0 \<le> l" "\<forall>k<5. malloc_ok k"
  shows "\<exists>A h. SUNMatrixNew_Band malloc_ok junk junkp n u l su = Some (Some A, h)
           \<and> mu (content A) = u \<and> band_shape A
           \<and> (\<forall>j. 0 \<le> j \<and> j < n \<longrightarrow> load (cols (content A)) j = Some (j * (su + l + 1)))"
proof -
  have "0 \<le> n * (su + l + 1)" using assms by simp
  then show ?thesis
  unfolding new_band_ok[OF assms]
  by (simp add: band_shape_def load_cols assms)
qed

text \<open>
  Claim C8. A call \<^verbatim>\<open>SUNMatrixNew_Band(N, mu, ml, smu)\<close> with \<open>N \<le> 0\<close>, \<open>smu < 0\<close> or
  \<open>ml < 0\<close> returns \<^verbatim>\<open>NULL\<close> and has called neither \<^verbatim>\<open>malloc\<close> nor \<^verbatim>\<open>free\<close>. The
  upper bandwidth \<open>mu\<close> is not looked at: whether a matrix is returned does not depend
  on it, and whenever \<open>N > 0\<close>, \<open>smu \<ge> 0\<close>, \<open>ml \<ge> 0\<close> and the allocations succeed, a matrix
  is returned that stores \<open>mu\<close> as given and whose column pointers are
  \<open>cols[j] = data + j * (smu + ml + 1)\<close>; this happens for some negative \<open>mu\<close>.
\<close>

theorem C8_SUNMatrixNew_Band:
  "(n \<le> 0 \<or> su < 0 \<or> l < 0 \<longrightarrow>
      SUNMatrixNew_Band malloc_ok junk junkp n u l su = Some (None, \<lparr>n_malloc = 0, n_free = 0\<rparr>))
   \<and> ((\<exists>A h. SUNMatrixNew_Band malloc_ok junk junkp n u l su = Some (Some A, h))
        = (\<exists>A h. SUNMatrixNew_Band malloc_ok junk junkp n u' l su = Some (Some A, h)))
   \<and> (0 < n \<and> 0 \<le> su \<and> 0 \<le> l \<and> (\<forall>k<5. malloc_ok k) \<longrightarrow>
        (\<exists>A h. SUNMatrixNew_Band malloc_ok junk junkp n u l su = Some (Some A, h)
           \<and> mu (content A) = u \<and> band_shape A
           \<and> (\<forall>j. 0 \<le> j \<and> j < n \<longrightarrow> load (cols (content A)) j = Some (j * (su + l + 1)))))
   \<and> (\<exists>n1 u1 l1 su1 A h. u1 < 0 \<and> 0 < n1 \<and> 0 \<le> su1 \<and> 0 \<le> l1
        \<and> SUNMatrixNew_Band (\<lambda>k. True) junk junkp n1 u1 l1 su1 = Some (Some A, h)
        \<and> (\<forall>j. 0 \<le> j \<and> j < n1 \<longrightarrow> load (cols (content A)) j = Some (j * (su1 + l1 + 1))))"
proof (intro conjI)
  show "n \<le> 0 \<or> su < 0 \<or> l < 0 \<longrightarrow>
      SUNMatrixNew_Band malloc_ok junk junkp n u l su = Some (None, \<lparr>n_malloc = 0, n_free = 0\<rparr>)"
    by (simp add: SUNMatrixNew_Band_def)
next
  show "(\<exists>A h. SUNMatrixNew_Band malloc_ok junk junkp n u l su = Some (Some A, h))
        = (\<exists>A h. SUNMatrixNew_Band malloc_ok junk junkp n u' l su = Some (Some A, h))"
  proof (cases "0 \<le> n")
    case True
    then show ?thesis
      by (simp add: SUNMatrixNew_Band_def Let_def cols_loop)
  next
    case False
    then show ?thesis by (simp add: SUNMatrixNew_Band_def)
  qed
next
  show "0 < n \<and> 0 \<le> su \<and> 0 \<le> l \<and> (\<forall>k<5. malloc_ok k) \<longrightarrow>
        (\<exists>A h. SUNMatrixNew_Band malloc_ok junk junkp n u l su = Some (Some A, h)
           \<and> mu (content A) = u \<and> band_shape A
           \<and> (\<forall>j. 0 \<le> j \<and> j < n \<longrightarrow> load (cols (content A)) j = Some (j * (su + l + 1))))"
    using new_band_shape by blast
next
  have "\<exists>A h. SUNMatrixNew_Band (\<lambda>k. True) junk junkp 2 (-1) 0 0 = Some (Some A, h)
           \<and> mu (content A) = -1 \<and> band_shape A
           \<and> (\<forall>j. 0 \<le> j \<and> j < 2 \<longrightarrow> load (cols (content A)) j = Some (j * (0 + 0 + 1)))"
    by (rule new_band_shape) simp_all
  then show "\<exists>n1 u1 l1 su1 A h. u1 < 0 \<and> 0 < n1 \<and> 0 \<le> su1 \<and> 0 \<le> l1
        \<and> SUNMatrixNew_Band (\<lambda>k. True) junk junkp n1 u1 l1 su1 = Some (Some A, h)
        \<and> (\<forall>j. 0 \<le> j \<and> j < n1 \<longrightarrow> load (cols (content A)) j = Some (j * (su1 + l1 + 1)))"
    by (intro exI[of _ 2] exI[of _ "-1"] exI[of _ 0]) auto
qed

theorem C8_SUNMatrixNew_Band_witness:
  "SUNMatrixNew_Band (\<lambda>k. True) (\<lambda>k. 0) (\<lambda>k. 0) 0 1 1 1 = Some (None, \<lparr>n_malloc = 0, n_free = 0\<rparr>)
   \<and> SUNMatrixNew_Band (\<lambda>k. True) (\<lambda>k. 0) (\<lambda>k. 0) 3 1 (-1) 1 = Some (None, \<lparr>n_malloc = 0, n_free = 0\<rparr>)
   \<and> (\<exists>A h. SUNMatrixNew_Band (\<lambda>k. True) (\<lambda>k. 0) (\<lambda>k. 0) 2 (-1) 0 0 = Some (Some A, h)
         \<and> mu (content A) = -1 \<and> load (cols (content A)) 0 = Some 0
         \<and> load (cols (content A)) 1 = Some 1)"
  using C8_SUNMatrixNew_Band[of 0 1 1 "\<lambda>k. True" "\<lambda>k. 0" "\<lambda>k. 0" 1 1]
    C8_SUNMatrixNew_Band[of 3 1 "-1" "\<lambda>k. True" "\<lambda>k. 0" "\<lambda>k. 0" 1 1]
    C8_SUNMatrixNew_Band[of 2 0 0 "\<lambda>k. True" "\<lambda>k. 0" "\<lambda>k. 0" "-1" 1]
  by auto

section \<open>The matrix-vector product\<close>


















section \<open>Zero, AddIdentity and the product\<close>













section \<open>Dense output: the Horner evaluation\<close>

lemma dky_coeff_loop_prod:
  "lo \<le> i + 1 \<Longrightarrow> dky_coeff_loop i lo c = c * (\<Prod>r\<in>{lo..i}. of_int r)"
proof (induction i lo c rule: dky_coeff_loop.induct)
  case (1 i lo c)
  show ?case
  proof (cases "lo \<le> i")
    case True
    have s: "{lo..i} = insert i {lo..i - 1}" using True by auto
    have "dky_coeff_loop i lo c = dky_coeff_loop (i - 1) lo (c * of_int i)"
      using True by (subst dky_coeff_loop.simps) simp
    also have "\<dots> = c * of_int i * (\<Prod>r\<in>{lo..i - 1}. of_int r)"
      using "1.IH"[OF True] True by simp
    also have "\<dots> = c * (\<Prod>r\<in>{lo..i}. of_int r)"
      unfolding s by simp
    finally show ?thesis .
  next
    case False
    then have "{lo..i} = {}" by simp
    then show ?thesis using False by (subst dky_coeff_loop.simps) simp
  qed
qed

lemma dky_coeff_prod: "0 \<le> k \<Longrightarrow> dky_coeff j k = (\<Prod>r\<in>{j - k + 1..j}. of_int r)"
  by (simp add: dky_coeff_def dky_coeff_loop_prod)

lemma dky_coeff_0: "dky_coeff j 0 = 1"
  by (simp add: dky_coeff_prod)

lemma prod_int_fact: "(\<Prod>r\<in>{1..int n}. (of_int r :: real)) = fact n"
proof (induction n)
  case 0
  then show ?case by simp
next
  case (Suc n)
  have s: "{1..int (Suc n)} = insert (int (Suc n)) {1..int n}" by auto
  show ?case unfolding s using Suc by (simp add: algebra_simps)
qed

lemma dky_coeff_fact:
  assumes "0 \<le> k" "k \<le> j"
  shows "dky_coeff j k * fact (nat (j - k)) = fact (nat j)"
proof -
  have d: "{1..j} = {1..j - k} \<union> {j - k + 1..j}" using assms by auto
  have "(\<Prod>r\<in>{1..j}. (of_int r :: real))
          = (\<Prod>r\<in>{1..j - k}. of_int r) * (\<Prod>r\<in>{j - k + 1..j}. of_int r)"
    unfolding d by (rule prod.union_disjoint) auto
  moreover have "(\<Prod>r\<in>{1..j}. (of_int r :: real)) = fact (nat j)"
    using prod_int_fact[of "nat j"] assms by simp
  moreover have "(\<Prod>r\<in>{1..j - k}. (of_int r :: real)) = fact (nat (j - k))"
    using prod_int_fact[of "nat (j - k)"] assms by simp
  ultimately show ?thesis using assms by (simp add: dky_coeff_prod mult.commute)
qed

lemma dky_coeff_diag: "0 \<le> k \<Longrightarrow> dky_coeff k k = fact (nat k)"
  using dky_coeff_fact[of k k] by simp

lemma N_VLinearSum_nth:
  "length x = n \<Longrightarrow> length y = n \<Longrightarrow> i < n \<Longrightarrow> N_VLinearSum a x b y ! i = a * x ! i + b * y ! i"
  by (simp add: N_VLinearSum_def)

lemma N_VLinearSum_length:
  "length x = n \<Longrightarrow> length y = n \<Longrightarrow> length (N_VLinearSum a x b y) = n"
  by (simp add: N_VLinearSum_def)

lemma dky_loop_below:
  assumes cols: "\<And>m. 0 \<le> m \<Longrightarrow> m \<le> q \<Longrightarrow> length (zn ! nat m) = n"
    and "0 \<le> k" "k \<le> j + 1" "j < q" "length acc = n" "i < n"
  shows "length (dky_loop zn q k s j acc) = n \<and>
         dky_loop zn q k s j acc ! i =
           (\<Sum>m\<in>{k..j}. dky_coeff m k * zn ! nat m ! i * s ^ nat (m - k))
             + s ^ nat (j + 1 - k) * acc ! i"
  using assms
proof (induction zn q k s j acc rule: dky_loop.induct)
  case (1 zn q k s j dky)
  note cols = "1.prems"(1)
  show ?case
  proof (cases "k \<le> j")
    case True
    define acc' where "acc' = N_VLinearSum (dky_coeff j k) (zn ! nat j) s dky"
    have lz: "length (zn ! nat j) = n" by (rule cols) (use True "1.prems" in simp_all)
    have la: "length acc' = n"
      unfolding acc'_def by (rule N_VLinearSum_length[OF lz "1.prems"(5)])
    have ai: "acc' ! i = dky_coeff j k * zn ! nat j ! i + s * dky ! i"
      unfolding acc'_def by (rule N_VLinearSum_nth[OF lz "1.prems"(5,6)])
    have e: "dky_loop zn q k s j dky = dky_loop zn q k s (j - 1) acc'"
      using True "1.prems"(4) by (subst dky_loop.simps) (simp add: acc'_def)
    have ne: "j \<noteq> q" using "1.prems"(4) by simp
    have IH: "length (dky_loop zn q k s (j - 1) acc') = n \<and>
         dky_loop zn q k s (j - 1) acc' ! i =
           (\<Sum>m\<in>{k..j - 1}. dky_coeff m k * zn ! nat m ! i * s ^ nat (m - k))
             + s ^ nat (j - 1 + 1 - k) * acc' ! i"
      using "1.IH"[OF True cols "1.prems"(2)] True "1.prems"(4,6) la ne
      by (simp add: acc'_def)
    have st: "{k..j} = insert j {k..j - 1}" using True by auto
    have p: "s ^ nat (j + 1 - k) = s ^ nat (j - k) * s"
    proof -
      have "nat (j + 1 - k) = Suc (nat (j - k))" using True by simp
      then show ?thesis by simp
    qed
    have "(\<Sum>m\<in>{k..j}. dky_coeff m k * zn ! nat m ! i * s ^ nat (m - k))
            = dky_coeff j k * zn ! nat j ! i * s ^ nat (j - k)
              + (\<Sum>m\<in>{k..j - 1}. dky_coeff m k * zn ! nat m ! i * s ^ nat (m - k))"
      unfolding st by simp
    then show ?thesis
      using IH unfolding e ai p by (simp add: algebra_simps)
  next
    case False
    then have "j + 1 - k = 0" "{k..j} = {}" using "1.prems"(3) by auto
    then show ?thesis using False "1.prems"(5) by (subst (1 2) dky_loop.simps) simp
  qed
qed

lemma dky_loop_sum:
  assumes cols: "\<And>m. 0 \<le> m \<Longrightarrow> m \<le> q \<Longrightarrow> length (zn ! nat m) = n"
    and k: "0 \<le> k" "k \<le> q" and i: "i < n"
  shows "length (dky_loop zn q k s q []) = n \<and>
         dky_loop zn q k s q [] ! i =
           (\<Sum>m\<in>{k..q}. dky_coeff m k * zn ! nat m ! i * s ^ nat (m - k))"
proof -
  define acc where "acc = N_VScale (dky_coeff q k) (zn ! nat q)"
  have lz: "length (zn ! nat q) = n" using cols[of q] k by simp
  have la: "length acc = n" by (simp add: acc_def N_VScale_def lz)
  have ai: "acc ! i = dky_coeff q k * zn ! nat q ! i" using i lz by (simp add: acc_def N_VScale_def)
  have e: "dky_loop zn q k s q [] = dky_loop zn q k s (q - 1) acc"
    using k by (subst dky_loop.simps) (simp add: acc_def)
  have b: "length (dky_loop zn q k s (q - 1) acc) = n \<and>
         dky_loop zn q k s (q - 1) acc ! i =
           (\<Sum>m\<in>{k..q - 1}. dky_coeff m k * zn ! nat m ! i * s ^ nat (m - k))
             + s ^ nat (q - 1 + 1 - k) * acc ! i"
    by (rule dky_loop_below[OF cols k(1) _ _ la i]) (use k in simp_all)
  have st: "{k..q} = insert q {k..q - 1}" using k by auto
  have "(\<Sum>m\<in>{k..q}. dky_coeff m k * zn ! nat m ! i * s ^ nat (m - k))
            = dky_coeff q k * zn ! nat q ! i * s ^ nat (q - k)
              + (\<Sum>m\<in>{k..q - 1}. dky_coeff m k * zn ! nat m ! i * s ^ nat (m - k))"
    unfolding st by simp
  then show ?thesis using b unfolding e ai by (simp add: algebra_simps)
qed

lemma after_step_cols:
  assumes "after_step m" "0 \<le> j" "j \<le> cv_q m"
  shows "length (cv_zn m ! nat j) = length (cv_zn m ! 0)"
proof -
  have "j < int (length (cv_zn m))" using assms unfolding after_step_def by linarith
  then have "nat j < length (cv_zn m)" using assms(2) by (simp add: nat_less_iff)
  moreover have "list_all (\<lambda>z. length z = length (cv_zn m ! 0)) (cv_zn m)"
    using assms(1) by (simp add: after_step_def)
  ultimately show ?thesis by (simp add: list_all_length)
qed

lemma dky_value_sum:
  assumes a: "after_step m" and k: "0 \<le> k" "k \<le> cv_q m" and i: "i < length (cv_zn m ! 0)"
  shows "length (dky_value m t k) = length (cv_zn m ! 0) \<and>
         dky_value m t k ! i =
           (\<Sum>j\<in>{k..cv_q m}. dky_coeff j k * cv_zn m ! nat j ! i * ((t - cv_tn m) / cv_h m) ^ nat (j - k))
             / cv_h m ^ nat k"
proof -
  note s = dky_loop_sum[of "cv_q m" "cv_zn m" "length (cv_zn m ! 0)" k i "(t - cv_tn m) / cv_h m",
      OF after_step_cols[OF a] k i]
  show ?thesis
  proof (cases "k = 0")
    case True
    then show ?thesis using s by (simp add: dky_value_def)
  next
    case False
    then show ?thesis using s i by (simp add: dky_value_def Let_def N_VScale_def)
  qed
qed

lemma dky_value_at_tn:
  assumes a: "after_step m" and k: "0 \<le> k" "k \<le> cv_q m" and i: "i < length (cv_zn m ! 0)"
  shows "cv_zn m ! nat k ! i = cv_h m ^ nat k / fact (nat k) * dky_value m (cv_tn m) k ! i"
proof -
  have h: "cv_h m \<noteq> 0" using a by (simp add: after_step_def)
  have "(\<Sum>j\<in>{k..cv_q m}. dky_coeff j k * cv_zn m ! nat j ! i * ((cv_tn m - cv_tn m) / cv_h m) ^ nat (j - k))
          = (\<Sum>j\<in>{k..cv_q m}. if j = k then dky_coeff k k * cv_zn m ! nat k ! i else 0)"
    by (rule sum.cong[OF refl]) auto
  also have "\<dots> = dky_coeff k k * cv_zn m ! nat k ! i" using k by simp
  finally have "dky_value m (cv_tn m) k ! i = fact (nat k) * cv_zn m ! nat k ! i / cv_h m ^ nat k"
    using dky_value_sum[OF a k i, of "cv_tn m"] k by (simp add: dky_coeff_diag)
  then show ?thesis using h by simp
qed

lemma dky_coeff_quot:
  assumes "0 \<le> k" "k \<le> j"
  shows "dky_coeff j k = fact (nat j) / fact (nat (j - k))"
  using dky_coeff_fact[OF assms] by (simp add: field_simps)

lemma dky_loop_below_length:
  assumes "\<And>m. 0 \<le> m \<Longrightarrow> m \<le> q \<Longrightarrow> length (zn ! nat m) = n"
    and "0 \<le> k" "k \<le> j + 1" "j < q" "length acc = n"
  shows "length (dky_loop zn q k s j acc) = n"
  using assms
proof (induction zn q k s j acc rule: dky_loop.induct)
  case (1 zn q k s j dky)
  show ?case
  proof (cases "k \<le> j")
    case True
    have lz: "length (zn ! nat j) = n" by (rule "1.prems"(1)) (use True "1.prems" in simp_all)
    have la: "length (N_VLinearSum (dky_coeff j k) (zn ! nat j) s dky) = n"
      by (rule N_VLinearSum_length[OF lz "1.prems"(5)])
    have ne: "j \<noteq> q" using "1.prems"(4) by simp
    show ?thesis
      using "1.IH"[OF True "1.prems"(1,2)] True "1.prems"(4) la ne
      by (subst dky_loop.simps) simp
  next
    case False
    then show ?thesis using "1.prems"(5) by (subst dky_loop.simps) simp
  qed
qed

lemma dky_value_length:
  assumes a: "after_step m" and k: "0 \<le> k" "k \<le> cv_q m"
  shows "length (dky_value m t k) = length (cv_zn m ! 0)"
proof -
  define acc where "acc = N_VScale (dky_coeff (cv_q m) k) (cv_zn m ! nat (cv_q m))"
  have la: "length acc = length (cv_zn m ! 0)"
    using after_step_cols[OF a, of "cv_q m"] k by (simp add: acc_def N_VScale_def)
  have e: "dky_loop (cv_zn m) (cv_q m) k s (cv_q m) [] = dky_loop (cv_zn m) (cv_q m) k s (cv_q m - 1) acc"
    for s using k by (subst dky_loop.simps) (simp add: acc_def)
  have "length (dky_loop (cv_zn m) (cv_q m) k s (cv_q m - 1) acc) = length (cv_zn m ! 0)" for s
    by (rule dky_loop_below_length[OF after_step_cols[OF a] k(1) _ _ la]) (use k in simp_all)
  then have "length (dky_loop (cv_zn m) (cv_q m) k ((t - cv_tn m) / cv_h m) (cv_q m) [])
               = length (cv_zn m ! 0)"
    by (simp add: e)
  then show ?thesis by (auto simp add: dky_value_def Let_def N_VScale_def)
qed

lemma example_fields:
  "cv_qu cv_mem_example = 2" "cv_q cv_mem_example = 2" "cv_tn cv_mem_example = 1"
  "cv_hu cv_mem_example = 1 / 2" "cv_h cv_mem_example = 1 / 2"
  "cv_zn cv_mem_example = [[1, 2], [3, 4], [5, 6]]"
  by (simp_all add: cv_mem_example_def)

lemma after_step_example: "after_step cv_mem_example"
  by (simp add: after_step_def cv_mem_example_def cv_zn_extent_def L_MAX_def Q_MAX_def ADAMS_Q_MAX_def)

lemma dky_coeff_Suc:
  assumes "0 \<le> k" "k < j"
  shows "dky_coeff j (k + 1) = dky_coeff j k * of_int (j - k)"
proof -
  have f: "fact (nat (j - k)) = of_int (j - k) * (fact (nat (j - (k + 1))) :: real)"
  proof -
    have "nat (j - k) = Suc (nat (j - (k + 1)))" using assms by simp
    then have "(fact (nat (j - k)) :: real) = of_nat (Suc (nat (j - (k + 1)))) * fact (nat (j - (k + 1)))"
      by (simp only: fact_Suc of_nat_mult)
    moreover have "of_nat (Suc (nat (j - (k + 1)))) = (of_int (j - k) :: real)"
      using assms by simp
    ultimately show ?thesis by simp
  qed
  have "dky_coeff j (k + 1) * fact (nat (j - (k + 1))) = fact (nat j)"
    by (rule dky_coeff_fact) (use assms in simp_all)
  moreover have "dky_coeff j k * fact (nat (j - k)) = fact (nat j)"
    by (rule dky_coeff_fact) (use assms in simp_all)
  ultimately have "dky_coeff j (k + 1) * fact (nat (j - (k + 1)))
                     = dky_coeff j k * of_int (j - k) * fact (nat (j - (k + 1)))"
    using f by simp
  then show ?thesis by simp
qed

text \<open>
  The value for order \<open>k + 1\<close> is the derivative, with respect to \<open>t\<close>, of the value for
  order \<open>k\<close>; the value for order 0 is the polynomial with the columns as coefficients.
\<close>

lemma dky_value_derivative:
  assumes a: "after_step m" and k: "0 \<le> k" "k < cv_q m" and i: "i < length (cv_zn m ! 0)"
  shows "((\<lambda>t. dky_value m t k ! i) has_real_derivative dky_value m t (k + 1) ! i) (at t)"
proof -
  define h where "h = cv_h m"
  define tn where "tn = cv_tn m"
  define z where "z j = cv_zn m ! nat j ! i" for j
  have h0: "h \<noteq> 0" using a by (simp add: after_step_def h_def)
  have v: "dky_value m t k ! i = (\<Sum>j\<in>{k..cv_q m}. dky_coeff j k * z j * ((t - tn) / h) ^ nat (j - k)) / h ^ nat k"
    for t using dky_value_sum[OF a k(1) _ i, of t] k by (simp add: h_def tn_def z_def)
  have v1: "dky_value m t (k + 1) ! i
              = (\<Sum>j\<in>{k + 1..cv_q m}. dky_coeff j (k + 1) * z j * ((t - tn) / h) ^ nat (j - (k + 1)))
                  / h ^ nat (k + 1)"
    using dky_value_sum[OF a _ _ i, of "k + 1" t] k by (simp add: h_def tn_def z_def)
  have d: "((\<lambda>t. dky_coeff j k * z j * ((t - tn) / h) ^ nat (j - k)) has_real_derivative
             (if j = k then 0
              else dky_coeff j (k + 1) * z j * ((t - tn) / h) ^ nat (j - (k + 1)) / h)) (at t)"
    if j: "j \<in> {k..cv_q m}" for j
  proof (cases "j = k")
    case True
    then show ?thesis by simp
  next
    case False
    then have kj: "k < j" using j by simp
    define w :: real where "w = of_int (j - k)"
    have n: "nat (j - k) - 1 = nat (j - (k + 1))" using kj by simp
    have r: "real (nat (j - k)) = w" using kj by (simp add: w_def)
    have c: "dky_coeff j (k + 1) = dky_coeff j k * w"
      unfolding w_def by (rule dky_coeff_Suc[OF k(1) kj])
    have D: "((\<lambda>t. dky_coeff j k * z j * ((t - tn) / h) ^ nat (j - k)) has_real_derivative
             dky_coeff j k * z j * (real (nat (j - k)) * ((t - tn) / h) ^ (nat (j - k) - 1) * (1 / h))) (at t)"
      by (auto intro!: derivative_eq_intros simp: h0)
    have E: "dky_coeff j k * z j * (real (nat (j - k)) * ((t - tn) / h) ^ (nat (j - k) - 1) * (1 / h))
                    = dky_coeff j (k + 1) * z j * ((t - tn) / h) ^ nat (j - (k + 1)) / h"
      unfolding r c n by simp
    have "((\<lambda>t. dky_coeff j k * z j * ((t - tn) / h) ^ nat (j - k)) has_real_derivative
             dky_coeff j (k + 1) * z j * ((t - tn) / h) ^ nat (j - (k + 1)) / h) (at t)"
      by (rule DERIV_cong[OF D E])
    then show ?thesis by (simp only: False if_False)
  qed
  have "((\<lambda>t. \<Sum>j\<in>{k..cv_q m}. dky_coeff j k * z j * ((t - tn) / h) ^ nat (j - k)) has_real_derivative
           (\<Sum>j\<in>{k..cv_q m}. if j = k then 0
              else dky_coeff j (k + 1) * z j * ((t - tn) / h) ^ nat (j - (k + 1)) / h)) (at t)"
    by (rule DERIV_sum) (rule d)
  moreover have "(\<Sum>j\<in>{k..cv_q m}. if j = k then 0
              else dky_coeff j (k + 1) * z j * ((t - tn) / h) ^ nat (j - (k + 1)) / h)
            = (\<Sum>j\<in>{k + 1..cv_q m}. dky_coeff j (k + 1) * z j * ((t - tn) / h) ^ nat (j - (k + 1))) / h"
  proof -
    have s: "{k..cv_q m} = insert k {k + 1..cv_q m}" using k by auto
    have "(\<Sum>j\<in>{k..cv_q m}. if j = k then 0
              else dky_coeff j (k + 1) * z j * ((t - tn) / h) ^ nat (j - (k + 1)) / h)
          = (\<Sum>j\<in>{k + 1..cv_q m}. if j = k then 0
              else dky_coeff j (k + 1) * z j * ((t - tn) / h) ^ nat (j - (k + 1)) / h)"
      unfolding s by simp
    also have "\<dots> = (\<Sum>j\<in>{k + 1..cv_q m}. dky_coeff j (k + 1) * z j * ((t - tn) / h) ^ nat (j - (k + 1)) / h)"
      by (rule sum.cong[OF refl]) simp
    also have "\<dots> = (\<Sum>j\<in>{k + 1..cv_q m}. dky_coeff j (k + 1) * z j * ((t - tn) / h) ^ nat (j - (k + 1))) / h"
      by (simp add: sum_divide_distrib)
    finally show ?thesis .
  qed
  ultimately have "((\<lambda>t. \<Sum>j\<in>{k..cv_q m}. dky_coeff j k * z j * ((t - tn) / h) ^ nat (j - k))
          has_real_derivative
           (\<Sum>j\<in>{k + 1..cv_q m}. dky_coeff j (k + 1) * z j * ((t - tn) / h) ^ nat (j - (k + 1))) / h) (at t)"
    by simp
  then have "((\<lambda>t. (\<Sum>j\<in>{k..cv_q m}. dky_coeff j k * z j * ((t - tn) / h) ^ nat (j - k)) / h ^ nat k)
          has_real_derivative
           (\<Sum>j\<in>{k + 1..cv_q m}. dky_coeff j (k + 1) * z j * ((t - tn) / h) ^ nat (j - (k + 1))) / h / h ^ nat k) (at t)"
    by (rule DERIV_cdivide)
  moreover have "nat (k + 1) = Suc (nat k)" using k by simp
  ultimately show ?thesis
    unfolding v1 by (simp add: v[abs_def] mult.commute)
qed

lemma dky_value_0:
  assumes a: "after_step m" and i: "i < length (cv_zn m ! 0)"
  shows "dky_value m t 0 ! i
           = (\<Sum>j\<in>{0..cv_q m}. cv_zn m ! nat j ! i * ((t - cv_tn m) / cv_h m) ^ nat j)"
proof -
  have q: "0 \<le> cv_q m" using a by (simp add: after_step_def)
  show ?thesis using dky_value_sum[of m 0 i t] a q i by (simp add: dky_coeff_0)
qed

lemma dky_tests_okay:
  "(dky_tests cs m t k dky = OKAY) = (\<forall>c\<in>set cs. \<not> dky_test_fails m t k dky c)"
proof (induction cs)
  case Nil
  then show ?case by simp
next
  case (Cons c cs)
  have "dky_test_code c \<noteq> OKAY"
    by (cases c) (simp_all add: OKAY_def BAD_DKY_def BAD_K_def BAD_T_def)
  then show ?case using Cons by simp
qed

lemma dky_tests_code:
  "dky_tests cs m t k dky \<noteq> OKAY \<Longrightarrow>
     \<exists>c\<in>set cs. dky_test_fails m t k dky c \<and> dky_tests cs m t k dky = dky_test_code c"
  by (induction cs) (auto split: if_splits)

lemma dky_test_code_inj: "(dky_test_code c = dky_test_code c') = (c = c')"
  by (cases c; cases c') (simp_all add: BAD_DKY_def BAD_K_def BAD_T_def)

lemma dky_tests_only:
  assumes "c \<in> set cs" "dky_test_fails m t k dky c"
    and "\<forall>c'\<in>set cs. c' \<noteq> c \<longrightarrow> \<not> dky_test_fails m t k dky c'"
  shows "dky_tests cs m t k dky = dky_test_code c"
  using assms by (induction cs) auto

lemma CVodeGetDky_flag:
  "fst (CVodeGetDky order m t k dky) = dky_tests (order @ [TEST_DKY, TEST_K, TEST_T]) m t k dky"
  by (simp add: CVodeGetDky_def Let_def)

lemma CVodeGetDky_okay:
  "(fst (CVodeGetDky order m t k dky) = OKAY)
     = (dky \<noteq> None \<and> 0 \<le> k \<and> k \<le> cv_qu m \<and> in_last_step m t)"
proof -
  have "(\<forall>c\<in>set (order @ [TEST_DKY, TEST_K, TEST_T]). \<not> dky_test_fails m t k dky c)
          = (\<forall>c. \<not> dky_test_fails m t k dky c)"
  proof
    assume a: "\<forall>c\<in>set (order @ [TEST_DKY, TEST_K, TEST_T]). \<not> dky_test_fails m t k dky c"
    show "\<forall>c. \<not> dky_test_fails m t k dky c"
    proof
      fix c show "\<not> dky_test_fails m t k dky c" using a by (cases c) simp_all
    qed
  qed simp
  also have "\<dots> = (dky \<noteq> None \<and> 0 \<le> k \<and> k \<le> cv_qu m \<and> in_last_step m t)"
  proof
    assume a: "\<forall>c. \<not> dky_test_fails m t k dky c"
    show "dky \<noteq> None \<and> 0 \<le> k \<and> k \<le> cv_qu m \<and> in_last_step m t"
      using a[rule_format, of TEST_DKY] a[rule_format, of TEST_K] a[rule_format, of TEST_T]
      by auto
  next
    assume a: "dky \<noteq> None \<and> 0 \<le> k \<and> k \<le> cv_qu m \<and> in_last_step m t"
    show "\<forall>c. \<not> dky_test_fails m t k dky c"
    proof
      fix c show "\<not> dky_test_fails m t k dky c" using a by (cases c) auto
    qed
  qed
  finally show ?thesis by (simp add: CVodeGetDky_flag dky_tests_okay)
qed

lemma CVodeGetDky_failed:
  assumes "fst (CVodeGetDky order m t k dky) \<noteq> OKAY"
  shows "\<exists>c. dky_test_fails m t k dky c \<and> fst (CVodeGetDky order m t k dky) = dky_test_code c"
proof -
  have "dky_tests (order @ [TEST_DKY, TEST_K, TEST_T]) m t k dky \<noteq> OKAY"
    using assms unfolding CVodeGetDky_flag .
  from dky_tests_code[OF this] obtain c where
    "dky_test_fails m t k dky c"
    "dky_tests (order @ [TEST_DKY, TEST_K, TEST_T]) m t k dky = dky_test_code c"
    by blast
  then show ?thesis unfolding CVodeGetDky_flag by blast
qed

lemma CVodeGetDky_only:
  assumes "dky_test_fails m t k dky c" "\<forall>c'. c' \<noteq> c \<longrightarrow> \<not> dky_test_fails m t k dky c'"
  shows "fst (CVodeGetDky order m t k dky) = dky_test_code c"
proof -
  have "c \<in> set (order @ [TEST_DKY, TEST_K, TEST_T])" by (cases c) simp_all
  then show ?thesis
    unfolding CVodeGetDky_flag using assms by (intro dky_tests_only) auto
qed

lemma in_last_step_tn: "in_last_step m (cv_tn m)"
  by (simp add: in_last_step_def min_def max_def)

lemma dky_value_tn_0:
  assumes a: "after_step m"
  shows "dky_value m (cv_tn m) 0 = cv_zn m ! 0"
proof (rule nth_equalityI)
  have q: "0 \<le> cv_q m" using a by (simp add: after_step_def)
  show l: "length (dky_value m (cv_tn m) 0) = length (cv_zn m ! 0)"
    by (rule dky_value_length[OF a _ q]) simp
  fix i assume "i < length (dky_value m (cv_tn m) 0)"
  then have i: "i < length (cv_zn m ! 0)" using l by simp
  show "dky_value m (cv_tn m) 0 ! i = cv_zn m ! 0 ! i"
    using dky_value_at_tn[OF a _ q i, of ] by simp
qed

text \<open>
  Claim C2, as amended. For every call of \<^verbatim>\<open>CVodeGetDky\<close> after a successful step, and
  whatever the order in which the function tests its arguments: the result is \<open>BAD_K\<close> only
  when the order \<open>k\<close> is outside \<open>[0, qu]\<close>, and it is \<open>BAD_K\<close> when \<open>k\<close> is the one illegal
  argument, in particular for \<open>get_dky(tn, k, v)\<close> with every \<open>k > qu\<close>; the result is
  \<open>BAD_T\<close> only when \<open>t\<close> is outside the interval of the last step, the times between
  \<open>tn - hu\<close> and \<open>tn\<close>, and it is \<open>BAD_T\<close> when \<open>t\<close> is the one illegal argument; the result
  is \<open>BAD_DKY\<close> only when \<open>dky\<close> is \<^verbatim>\<open>NULL\<close>, and it is \<open>BAD_DKY\<close> when that is the one
  illegal argument; when several arguments are illegal the result is the code of one of
  them. The call succeeds exactly when \<open>k\<close> is in \<open>[0, qu]\<close>, \<open>t\<close> is in the interval and
  \<open>dky\<close> is not \<^verbatim>\<open>NULL\<close>, and it then returns in \<open>dky\<close> the vector that the Horner
  evaluation gives, the \<open>k\<close>-th derivative of the polynomial with the columns of \<open>Z\<close> as
  coefficients: component \<open>i\<close> is the sum over \<open>j = k .. q\<close> of
  \<open>j!/(j-k)! * Z[j][i] * s^(j-k)\<close>, divided by \<open>h^k\<close>, where \<open>s = (t - tn) / h\<close>; and
  \<open>get_dky(tn, 0, v)\<close> returns \<open>Z[0]\<close>.
\<close>

theorem C2_CVodeGetDky:
  assumes "after_step m"
  shows "(fst (CVodeGetDky order m t k dky) = BAD_K \<longrightarrow> \<not> (0 \<le> k \<and> k \<le> cv_qu m))
    \<and> (\<not> (0 \<le> k \<and> k \<le> cv_qu m) \<and> in_last_step m t \<and> dky \<noteq> None
          \<longrightarrow> fst (CVodeGetDky order m t k dky) = BAD_K)
    \<and> (cv_qu m < k \<and> dky \<noteq> None \<longrightarrow> fst (CVodeGetDky order m (cv_tn m) k dky) = BAD_K)
    \<and> (fst (CVodeGetDky order m t k dky) = BAD_T \<longrightarrow> \<not> in_last_step m t)
    \<and> (\<not> in_last_step m t \<and> 0 \<le> k \<and> k \<le> cv_qu m \<and> dky \<noteq> None
          \<longrightarrow> fst (CVodeGetDky order m t k dky) = BAD_T)
    \<and> (fst (CVodeGetDky order m t k dky) = BAD_DKY \<longrightarrow> dky = None)
    \<and> (dky = None \<and> 0 \<le> k \<and> k \<le> cv_qu m \<and> in_last_step m t
          \<longrightarrow> CVodeGetDky order m t k dky = (BAD_DKY, None))
    \<and> (fst (CVodeGetDky order m t k dky) = OKAY \<or> fst (CVodeGetDky order m t k dky) = BAD_K
         \<or> fst (CVodeGetDky order m t k dky) = BAD_T \<or> fst (CVodeGetDky order m t k dky) = BAD_DKY)
    \<and> ((fst (CVodeGetDky order m t k dky) = OKAY)
          = (0 \<le> k \<and> k \<le> cv_qu m \<and> in_last_step m t \<and> dky \<noteq> None))
    \<and> (in_last_step m t
          = (if 0 \<le> cv_hu m then cv_tn m - cv_hu m \<le> t \<and> t \<le> cv_tn m
             else cv_tn m \<le> t \<and> t \<le> cv_tn m - cv_hu m))
    \<and> (0 \<le> k \<and> k \<le> cv_qu m \<and> in_last_step m t \<and> dky \<noteq> None \<longrightarrow>
         CVodeGetDky order m t k dky = (OKAY, Some (dky_value m t k))
         \<and> length (dky_value m t k) = length (cv_zn m ! 0)
         \<and> (\<forall>i<length (cv_zn m ! 0). dky_value m t k ! i =
                  (\<Sum>j\<in>{k..cv_q m}. fact (nat j) / fact (nat (j - k)) * cv_zn m ! nat j ! i
                       * ((t - cv_tn m) / cv_h m) ^ nat (j - k)) / cv_h m ^ nat k))
    \<and> (dky \<noteq> None \<longrightarrow> CVodeGetDky order m (cv_tn m) 0 dky = (OKAY, Some (cv_zn m ! 0)))"
proof -
  let ?r = "CVodeGetDky order m t k dky"
  have qu: "cv_qu m = cv_q m" and q1: "1 \<le> cv_q m" using assms by (simp_all add: after_step_def)
  have c1: "fst ?r = BAD_K \<longrightarrow> \<not> (0 \<le> k \<and> k \<le> cv_qu m)"
  proof
    assume e: "fst ?r = BAD_K"
    then have "fst ?r \<noteq> OKAY" by (simp add: BAD_K_def OKAY_def)
    from CVodeGetDky_failed[OF this] obtain c where
      c: "dky_test_fails m t k dky c" "fst ?r = dky_test_code c" by blast
    then have "dky_test_code c = dky_test_code TEST_K" using e by simp
    then have "c = TEST_K" by (simp only: dky_test_code_inj)
    then show "\<not> (0 \<le> k \<and> k \<le> cv_qu m)" using c(1) by auto
  qed
  have c2: "fst (CVodeGetDky order m t' k dky) = BAD_K"
    if "\<not> (0 \<le> k \<and> k \<le> cv_qu m)" "in_last_step m t'" "dky \<noteq> None" for t'
  proof -
    have "fst (CVodeGetDky order m t' k dky) = dky_test_code TEST_K"
    proof (rule CVodeGetDky_only, goal_cases)
      case 1
      then show ?case using that by auto
    next
      case 2
      show ?case
      proof (intro allI impI)
        fix c' :: dky_test assume "c' \<noteq> TEST_K"
        then show "\<not> dky_test_fails m t' k dky c'" using that by (cases c') auto
      qed
    qed
    then show ?thesis by simp
  qed
  have c4: "fst ?r = BAD_T \<longrightarrow> \<not> in_last_step m t"
  proof
    assume e: "fst ?r = BAD_T"
    then have "fst ?r \<noteq> OKAY" by (simp add: BAD_T_def OKAY_def)
    from CVodeGetDky_failed[OF this] obtain c where
      c: "dky_test_fails m t k dky c" "fst ?r = dky_test_code c" by blast
    then have "dky_test_code c = dky_test_code TEST_T" using e by simp
    then have "c = TEST_T" by (simp only: dky_test_code_inj)
    then show "\<not> in_last_step m t" using c(1) by auto
  qed
  have c5: "fst ?r = BAD_T" if "\<not> in_last_step m t" "0 \<le> k \<and> k \<le> cv_qu m" "dky \<noteq> None"
  proof -
    have "fst ?r = dky_test_code TEST_T"
    proof (rule CVodeGetDky_only, goal_cases)
      case 1
      then show ?case using that by auto
    next
      case 2
      show ?case
      proof (intro allI impI)
        fix c' :: dky_test assume "c' \<noteq> TEST_T"
        then show "\<not> dky_test_fails m t k dky c'" using that by (cases c') auto
      qed
    qed
    then show ?thesis by simp
  qed
  have c6: "fst ?r = BAD_DKY \<longrightarrow> dky = None"
  proof
    assume e: "fst ?r = BAD_DKY"
    then have "fst ?r \<noteq> OKAY" by (simp add: BAD_DKY_def OKAY_def)
    from CVodeGetDky_failed[OF this] obtain c where
      c: "dky_test_fails m t k dky c" "fst ?r = dky_test_code c" by blast
    then have "dky_test_code c = dky_test_code TEST_DKY" using e by simp
    then have "c = TEST_DKY" by (simp only: dky_test_code_inj)
    then show "dky = None" using c(1) by auto
  qed
  have c7: "?r = (BAD_DKY, None)" if "dky = None" "0 \<le> k \<and> k \<le> cv_qu m" "in_last_step m t"
  proof -
    have "fst ?r = dky_test_code TEST_DKY"
    proof (rule CVodeGetDky_only, goal_cases)
      case 1
      then show ?case using that by auto
    next
      case 2
      show ?case
      proof (intro allI impI)
        fix c' :: dky_test assume "c' \<noteq> TEST_DKY"
        then show "\<not> dky_test_fails m t k dky c'" using that by (cases c') auto
      qed
    qed
    then have f: "fst ?r = BAD_DKY" by simp
    then have "dky_tests (order @ [TEST_DKY, TEST_K, TEST_T]) m t k dky \<noteq> OKAY"
      by (simp add: CVodeGetDky_flag BAD_DKY_def OKAY_def)
    then have "snd ?r = dky" by (simp add: CVodeGetDky_def Let_def)
    then show ?thesis using f that(1) by (simp add: prod_eq_iff)
  qed
  have c8: "fst ?r = OKAY \<or> fst ?r = BAD_K \<or> fst ?r = BAD_T \<or> fst ?r = BAD_DKY"
  proof (cases "fst ?r = OKAY")
    case False
    from CVodeGetDky_failed[OF this] obtain c where "fst ?r = dky_test_code c" by blast
    then show ?thesis by (cases c) simp_all
  qed simp
  have c9: "(fst ?r = OKAY) = (0 \<le> k \<and> k \<le> cv_qu m \<and> in_last_step m t \<and> dky \<noteq> None)"
    by (auto simp: CVodeGetDky_okay)
  have c10: "in_last_step m t
          = (if 0 \<le> cv_hu m then cv_tn m - cv_hu m \<le> t \<and> t \<le> cv_tn m
             else cv_tn m \<le> t \<and> t \<le> cv_tn m - cv_hu m)"
    by (auto simp: in_last_step_def min_def max_def)
  have ok: "CVodeGetDky order m t' k' dky = (OKAY, Some (dky_value m t' k'))"
    if "0 \<le> k' \<and> k' \<le> cv_qu m" "in_last_step m t'" "dky \<noteq> None" for t' k'
  proof -
    have "fst (CVodeGetDky order m t' k' dky) = OKAY" using that by (simp add: CVodeGetDky_okay)
    then have "dky_tests (order @ [TEST_DKY, TEST_K, TEST_T]) m t' k' dky = OKAY"
      by (simp add: CVodeGetDky_flag)
    then show ?thesis by (simp add: CVodeGetDky_def Let_def)
  qed
  have c11: "CVodeGetDky order m t k dky = (OKAY, Some (dky_value m t k))
         \<and> length (dky_value m t k) = length (cv_zn m ! 0)
         \<and> (\<forall>i<length (cv_zn m ! 0). dky_value m t k ! i =
                  (\<Sum>j\<in>{k..cv_q m}. fact (nat j) / fact (nat (j - k)) * cv_zn m ! nat j ! i
                       * ((t - cv_tn m) / cv_h m) ^ nat (j - k)) / cv_h m ^ nat k)"
    if h: "0 \<le> k \<and> k \<le> cv_qu m \<and> in_last_step m t \<and> dky \<noteq> None"
  proof -
    have k: "0 \<le> k" "k \<le> cv_q m" using h qu by simp_all
    have r: "CVodeGetDky order m t k dky = (OKAY, Some (dky_value m t k))"
      using h by (intro ok) simp_all
    have l: "length (dky_value m t k) = length (cv_zn m ! 0)"
      by (rule dky_value_length[OF assms k])
    have v: "dky_value m t k ! i =
                  (\<Sum>j\<in>{k..cv_q m}. fact (nat j) / fact (nat (j - k)) * cv_zn m ! nat j ! i
                       * ((t - cv_tn m) / cv_h m) ^ nat (j - k)) / cv_h m ^ nat k"
      if i: "i < length (cv_zn m ! 0)" for i
    proof -
      have "(\<Sum>j\<in>{k..cv_q m}. dky_coeff j k * cv_zn m ! nat j ! i * ((t - cv_tn m) / cv_h m) ^ nat (j - k))
          = (\<Sum>j\<in>{k..cv_q m}. fact (nat j) / fact (nat (j - k)) * cv_zn m ! nat j ! i
                       * ((t - cv_tn m) / cv_h m) ^ nat (j - k))"
        by (rule sum.cong[OF refl]) (use k in \<open>simp add: dky_coeff_quot\<close>)
      then show ?thesis using dky_value_sum[OF assms k i, of t] by simp
    qed
    show ?thesis using r l v by blast
  qed
  have c12: "CVodeGetDky order m (cv_tn m) 0 dky = (OKAY, Some (cv_zn m ! 0))" if "dky \<noteq> None"
  proof -
    have "CVodeGetDky order m (cv_tn m) 0 dky = (OKAY, Some (dky_value m (cv_tn m) 0))"
      by (rule ok) (use that qu q1 in \<open>simp_all add: in_last_step_tn\<close>)
    then show ?thesis by (simp add: dky_value_tn_0[OF assms])
  qed
  have c3: "cv_qu m < k \<and> dky \<noteq> None \<longrightarrow> fst (CVodeGetDky order m (cv_tn m) k dky) = BAD_K"
    using c2[of "cv_tn m"] by (simp add: in_last_step_tn)
  have d2: "\<not> (0 \<le> k \<and> k \<le> cv_qu m) \<and> in_last_step m t \<and> dky \<noteq> None
          \<longrightarrow> fst (CVodeGetDky order m t k dky) = BAD_K"
    using c2[of t] by blast
  have d5: "\<not> in_last_step m t \<and> 0 \<le> k \<and> k \<le> cv_qu m \<and> dky \<noteq> None
          \<longrightarrow> fst (CVodeGetDky order m t k dky) = BAD_T"
    using c5 by blast
  have d7: "dky = None \<and> 0 \<le> k \<and> k \<le> cv_qu m \<and> in_last_step m t
          \<longrightarrow> CVodeGetDky order m t k dky = (BAD_DKY, None)"
    using c7 by blast
  have d11: "0 \<le> k \<and> k \<le> cv_qu m \<and> in_last_step m t \<and> dky \<noteq> None \<longrightarrow>
         CVodeGetDky order m t k dky = (OKAY, Some (dky_value m t k))
         \<and> length (dky_value m t k) = length (cv_zn m ! 0)
         \<and> (\<forall>i<length (cv_zn m ! 0). dky_value m t k ! i =
                  (\<Sum>j\<in>{k..cv_q m}. fact (nat j) / fact (nat (j - k)) * cv_zn m ! nat j ! i
                       * ((t - cv_tn m) / cv_h m) ^ nat (j - k)) / cv_h m ^ nat k)"
    using c11 by (rule impI)
  have d12: "dky \<noteq> None \<longrightarrow> CVodeGetDky order m (cv_tn m) 0 dky = (OKAY, Some (cv_zn m ! 0))"
    using c12 by (rule impI)
  show ?thesis
    by (intro conjI) (rule c1 d2 c3 c4 d5 c6 d7 c8 c9 c10 d11 d12)+
qed

theorem C2_CVodeGetDky_witness:
  "after_step cv_mem_example
   \<and> fst (CVodeGetDky [TEST_T, TEST_K] cv_mem_example (3 / 4) 3 (Some [0, 0])) = BAD_K
   \<and> fst (CVodeGetDky [TEST_T, TEST_K] cv_mem_example 2 1 (Some [0, 0])) = BAD_T
   \<and> CVodeGetDky [TEST_T, TEST_K] cv_mem_example (3 / 4) 1 None = (BAD_DKY, None)
   \<and> CVodeGetDky [TEST_T, TEST_K] cv_mem_example (3 / 4) 1 (Some [0, 0])
       = (OKAY, Some (dky_value cv_mem_example (3 / 4) 1))
   \<and> length (dky_value cv_mem_example (3 / 4) 1) = 2
   \<and> CVodeGetDky [TEST_T, TEST_K] cv_mem_example 1 0 (Some [0, 0]) = (OKAY, Some [1, 2])"
proof -
  have i1: "in_last_step cv_mem_example (3 / 4)" and i2: "\<not> in_last_step cv_mem_example 2"
    by (simp_all add: in_last_step_def example_fields)
  have s: "Some [0, 0::real] \<noteq> None" by simp
  note t1 = C2_CVodeGetDky[OF after_step_example, of "[TEST_T, TEST_K]" "3 / 4" 3 "Some [0, 0]"]
  note t2 = C2_CVodeGetDky[OF after_step_example, of "[TEST_T, TEST_K]" 2 1 "Some [0, 0]"]
  note t3 = C2_CVodeGetDky[OF after_step_example, of "[TEST_T, TEST_K]" "3 / 4" 1 None]
  note t4 = C2_CVodeGetDky[OF after_step_example, of "[TEST_T, TEST_K]" "3 / 4" 1 "Some [0, 0]"]
  have a: "fst (CVodeGetDky [TEST_T, TEST_K] cv_mem_example (3 / 4) 3 (Some [0, 0])) = BAD_K"
    using t1 i1 s by (simp add: example_fields)
  have b: "fst (CVodeGetDky [TEST_T, TEST_K] cv_mem_example 2 1 (Some [0, 0])) = BAD_T"
    using t2 i2 s by (simp add: example_fields)
  have c: "CVodeGetDky [TEST_T, TEST_K] cv_mem_example (3 / 4) 1 None = (BAD_DKY, None)"
    using t3 i1 by (simp add: example_fields)
  have d: "CVodeGetDky [TEST_T, TEST_K] cv_mem_example (3 / 4) 1 (Some [0, 0])
       = (OKAY, Some (dky_value cv_mem_example (3 / 4) 1))
     \<and> length (dky_value cv_mem_example (3 / 4) 1) = 2"
    using t4 i1 s by (simp add: example_fields)
  have e: "CVodeGetDky [TEST_T, TEST_K] cv_mem_example 1 0 (Some [0, 0]) = (OKAY, Some [1, 2])"
    using t4 s by (simp add: example_fields)
  show ?thesis using after_step_example a b c d e by blast
qed

text \<open>
  The claim as it was stated gives two conditions, each with "exactly when". Both cannot
  hold for a call with \<open>k\<close> outside \<open>[0, qu]\<close> and \<open>t\<close> outside \<open>[tn - hu, tn]\<close>, whatever the
  order of the two tests: the call returns one code. Here \<open>qu = 2\<close>, \<open>tn = 1\<close>, \<open>hu = 1/2\<close>,
  \<open>k = 3\<close> and \<open>t = 2\<close>: with the order first, the code is \<open>BAD_K\<close> and not \<open>BAD_T\<close>
  although \<open>t\<close> is outside the interval; with the time first, it is \<open>BAD_T\<close> and not
  \<open>BAD_K\<close> although \<open>k\<close> is outside its range. The call with the legal \<open>k = 1\<close> and
  \<open>t = 3/4\<close> does not succeed when \<open>dky\<close> is \<^verbatim>\<open>NULL\<close>. And after a backward step, \<open>hu = -1/2\<close>,
  no time satisfies \<open>tn - hu \<le> t \<le> tn\<close>, yet the call at \<open>tn\<close> succeeds.
\<close>

theorem C2_CVodeGetDky_counterexample:
  "after_step cv_mem_example
   \<and> \<not> (0 \<le> (3::int) \<and> 3 \<le> cv_qu cv_mem_example)
   \<and> \<not> (cv_tn cv_mem_example - cv_hu cv_mem_example \<le> 2 \<and> 2 \<le> cv_tn cv_mem_example)
   \<and> fst (CVodeGetDky [TEST_K, TEST_T] cv_mem_example 2 3 (Some [0, 0])) = BAD_K
   \<and> fst (CVodeGetDky [TEST_K, TEST_T] cv_mem_example 2 3 (Some [0, 0])) \<noteq> BAD_T
   \<and> fst (CVodeGetDky [TEST_T, TEST_K] cv_mem_example 2 3 (Some [0, 0])) = BAD_T
   \<and> fst (CVodeGetDky [TEST_T, TEST_K] cv_mem_example 2 3 (Some [0, 0])) \<noteq> BAD_K
   \<and> fst (CVodeGetDky [TEST_K, TEST_T] cv_mem_example (3 / 4) 1 None) = BAD_DKY
   \<and> after_step (cv_mem_example\<lparr>cv_h := - 1 / 2, cv_hu := - 1 / 2\<rparr>)
   \<and> \<not> (cv_tn (cv_mem_example\<lparr>cv_h := - 1 / 2, cv_hu := - 1 / 2\<rparr>)
            - cv_hu (cv_mem_example\<lparr>cv_h := - 1 / 2, cv_hu := - 1 / 2\<rparr>) \<le> 1
          \<and> 1 \<le> cv_tn (cv_mem_example\<lparr>cv_h := - 1 / 2, cv_hu := - 1 / 2\<rparr>))
   \<and> fst (CVodeGetDky [TEST_K, TEST_T] (cv_mem_example\<lparr>cv_h := - 1 / 2, cv_hu := - 1 / 2\<rparr>) 1 0
            (Some [0, 0])) = OKAY"
proof -
  have b: "after_step (cv_mem_example\<lparr>cv_h := - 1 / 2, cv_hu := - 1 / 2\<rparr>)"
    using after_step_example by (simp add: after_step_def)
  show ?thesis
    using after_step_example b
    by (simp add: CVodeGetDky_def Let_def in_last_step_def example_fields
        BAD_K_def BAD_T_def BAD_DKY_def OKAY_def)
qed

text \<open>
  Claim C7, as amended. The constants are \<open>ADAMS_Q_MAX = 12\<close>, \<open>BDF_Q_MAX = 5\<close>,
  \<open>Q_MAX = ADAMS_Q_MAX\<close>, \<open>L_MAX = Q_MAX + 1 = 13\<close> and \<open>NUM_TESTS = 5\<close>. The Nordsieck
  history \<^verbatim>\<open>cv_zn\<close> is declared with \<open>L_MAX = 13\<close> elements, \<open>zn[0] .. zn[L_MAX - 1]\<close>, which
  is \<open>zn[0] .. zn[Q_MAX]\<close>. After a successful step every column \<open>zn[j]\<close> with \<open>0 \<le> j \<le> q\<close>
  is inside the array, and it is \<open>h^j / j!\<close> times the \<open>j\<close>-th derivative of the
  interpolating polynomial at \<open>tn\<close>, as the dense output evaluates it.
\<close>

theorem C7_limits_and_history:
  "ADAMS_Q_MAX = 12 \<and> BDF_Q_MAX = 5 \<and> Q_MAX = ADAMS_Q_MAX \<and> L_MAX = Q_MAX + 1 \<and> L_MAX = 13
   \<and> NUM_TESTS = 5 \<and> cv_zn_extent = L_MAX \<and> cv_zn_extent = 13 \<and> cv_zn_extent - 1 = Q_MAX
   \<and> (after_step m \<and> 0 \<le> j \<and> j \<le> cv_q m \<longrightarrow>
        j < cv_zn_extent \<and> nat j < length (cv_zn m)
        \<and> length (dky_value m (cv_tn m) j) = length (cv_zn m ! nat j)
        \<and> (\<forall>i<length (cv_zn m ! nat j).
              cv_zn m ! nat j ! i = cv_h m ^ nat j / fact (nat j) * dky_value m (cv_tn m) j ! i))"
proof -
  have c: "ADAMS_Q_MAX = 12 \<and> BDF_Q_MAX = 5 \<and> Q_MAX = ADAMS_Q_MAX \<and> L_MAX = Q_MAX + 1 \<and> L_MAX = 13
   \<and> NUM_TESTS = 5 \<and> cv_zn_extent = L_MAX \<and> cv_zn_extent = 13 \<and> cv_zn_extent - 1 = Q_MAX"
    by (simp add: ADAMS_Q_MAX_def BDF_Q_MAX_def Q_MAX_def L_MAX_def NUM_TESTS_def cv_zn_extent_def)
  have h: "j < cv_zn_extent \<and> nat j < length (cv_zn m)
        \<and> length (dky_value m (cv_tn m) j) = length (cv_zn m ! nat j)
        \<and> (\<forall>i<length (cv_zn m ! nat j).
              cv_zn m ! nat j ! i = cv_h m ^ nat j / fact (nat j) * dky_value m (cv_tn m) j ! i)"
    if a: "after_step m" and j: "0 \<le> j" "j \<le> cv_q m"
  proof -
    have jl: "j < int (length (cv_zn m))" using a j unfolding after_step_def by linarith
    then have j1: "nat j < length (cv_zn m)" using j(1) by (simp add: nat_less_iff)
    have j2: "j < cv_zn_extent" using a jl unfolding after_step_def by linarith
    have l: "length (cv_zn m ! nat j) = length (cv_zn m ! 0)" by (rule after_step_cols[OF a j])
    show ?thesis
      using j1 j2 l dky_value_length[OF a j, of "cv_tn m"] dky_value_at_tn[OF a j] by simp
  qed
  show ?thesis using c h by blast
qed

theorem C7_limits_and_history_witness:
  "after_step cv_mem_example \<and> (0::int) \<le> 1 \<and> 1 \<le> cv_q cv_mem_example
   \<and> cv_zn cv_mem_example ! nat 1 = [3, 4]
   \<and> [3, 4] ! 0 = cv_h cv_mem_example ^ nat 1 / fact (nat 1)
                     * dky_value cv_mem_example (cv_tn cv_mem_example) 1 ! 0
   \<and> [3, 4] ! 1 = cv_h cv_mem_example ^ nat 1 / fact (nat 1)
                     * dky_value cv_mem_example (cv_tn cv_mem_example) 1 ! 1"
proof -
  have z: "cv_zn cv_mem_example ! nat 1 = [3, 4]" by (simp add: example_fields)
  have q: "(0::int) \<le> 1" "1 \<le> cv_q cv_mem_example" by (simp_all add: example_fields)
  have "\<forall>i<length (cv_zn cv_mem_example ! nat 1).
              cv_zn cv_mem_example ! nat 1 ! i
                = cv_h cv_mem_example ^ nat 1 / fact (nat 1)
                    * dky_value cv_mem_example (cv_tn cv_mem_example) 1 ! i"
    using C7_limits_and_history[of cv_mem_example 1] after_step_example q by blast
  then have a: "\<forall>i<length [3, 4::real]. [3, 4] ! i
                = cv_h cv_mem_example ^ nat 1 / fact (nat 1)
                    * dky_value cv_mem_example (cv_tn cv_mem_example) 1 ! i"
    unfolding z .
  have "[3, 4] ! 0 = cv_h cv_mem_example ^ nat 1 / fact (nat 1)
                     * dky_value cv_mem_example (cv_tn cv_mem_example) 1 ! 0"
    by (rule a[rule_format]) simp
  moreover have "[3, 4] ! 1 = cv_h cv_mem_example ^ nat 1 / fact (nat 1)
                     * dky_value cv_mem_example (cv_tn cv_mem_example) 1 ! 1"
    by (rule a[rule_format]) simp
  ultimately show ?thesis using after_step_example z q by blast
qed

text \<open>
  The claim as it was stated counts \<open>L_MAX + 1 = 13\<close> vectors \<open>Z[0..L_MAX]\<close>. \<open>L_MAX\<close> is 13,
  so \<open>L_MAX + 1\<close> is 14; the array is declared \<^verbatim>\<open>cv_zn[L_MAX]\<close>, and \<open>L_MAX\<close> is not an
  index of it.
\<close>

theorem C7_limits_and_history_counterexample:
  "L_MAX + 1 = 14 \<and> L_MAX + 1 \<noteq> 13 \<and> cv_zn_extent = 13 \<and> cv_zn_extent \<noteq> L_MAX + 1
   \<and> \<not> (L_MAX < cv_zn_extent)"
  by (simp add: L_MAX_def Q_MAX_def ADAMS_Q_MAX_def cv_zn_extent_def)

section \<open>Error weights and the weighted norm\<close>

lemma CVEwtSetSS_nth:
  "i < length y \<Longrightarrow> CVEwtSetSS rtol atol y ! i = 1 / (rtol * \<bar>y ! i\<bar> + atol)"
  by (simp add: CVEwtSetSS_def N_VInv_def N_VAddConst_def N_VScale_def N_VAbs_def)

lemma CVEwtSetSS_length: "length (CVEwtSetSS rtol atol y) = length y"
  by (simp add: CVEwtSetSS_def N_VInv_def N_VAddConst_def N_VScale_def N_VAbs_def)

lemma CVEwtSetSV_nth:
  "length atol = length y \<Longrightarrow> i < length y
     \<Longrightarrow> CVEwtSetSV rtol atol y ! i = 1 / (rtol * \<bar>y ! i\<bar> + atol ! i)"
  by (simp add: CVEwtSetSV_def N_VInv_def N_VLinearSum_def N_VAbs_def)

lemma CVEwtSetSV_length: "length atol = length y \<Longrightarrow> length (CVEwtSetSV rtol atol y) = length y"
  by (simp add: CVEwtSetSV_def N_VInv_def N_VLinearSum_def N_VAbs_def)

lemma sum_squares_sum:
  "length w = length x \<Longrightarrow> sum_squares x w acc = acc + (\<Sum>i<length x. (x ! i * w ! i)\<^sup>2)"
proof (induction x w acc rule: sum_squares.induct)
  case (1 a x b w acc)
  then have "sum_squares x w (acc + (a * b) * (a * b))
               = acc + (a * b) * (a * b) + (\<Sum>i<length x. (x ! i * w ! i)\<^sup>2)"
    by simp
  moreover have "(\<Sum>i<Suc (length x). ((a # x) ! i * (b # w) ! i)\<^sup>2)
                   = ((a # x) ! 0 * (b # w) ! 0)\<^sup>2
                     + (\<Sum>i<length x. ((a # x) ! Suc i * (b # w) ! Suc i)\<^sup>2)"
    by (rule sum.lessThan_Suc_shift)
  ultimately show ?case by (simp add: power2_eq_square del: sum.lessThan_Suc)
qed simp_all

text \<open>
  Claim C4. The error weights are \<open>ewt[i] = 1 / (rtol * |y[i]| + atol)\<close> for \<open>itol = SS\<close> and
  \<open>ewt[i] = 1 / (rtol * |y[i]| + atol[i])\<close> for \<open>itol = SV\<close>, and the norm of a vector \<open>v\<close>
  under the weights \<open>w\<close> is \<open>sqrt ((1/N) * sum of (v[i] * w[i])^2)\<close> with \<open>N\<close> the dimension.
\<close>

theorem C4_ewt_and_WRMS_norm:
  "(cv_itol m = SS \<longrightarrow>
      length (CVEwtSet m y) = length y
      \<and> (\<forall>i<length y. CVEwtSet m y ! i = 1 / (cv_reltol m * \<bar>y ! i\<bar> + cv_abstol_s m)))
   \<and> (cv_itol m = SV \<and> length (cv_abstol_v m) = length y \<longrightarrow>
      length (CVEwtSet m y) = length y
      \<and> (\<forall>i<length y. CVEwtSet m y ! i = 1 / (cv_reltol m * \<bar>y ! i\<bar> + cv_abstol_v m ! i)))
   \<and> (length w = length v \<longrightarrow>
      N_VWrmsNorm v w = sqrt ((1 / real (length v)) * (\<Sum>i<length v. (v ! i * w ! i)\<^sup>2)))"
  by (simp add: CVEwtSet_def CVEwtSetSS_nth CVEwtSetSS_length CVEwtSetSV_nth CVEwtSetSV_length
      N_VWrmsNorm_def sum_squares_sum)

theorem C4_ewt_and_WRMS_norm_witness:
  "cv_itol cv_mem_example = SS
   \<and> CVEwtSet cv_mem_example [1, -2] ! 1 = 1 / (1 / 1000 * \<bar>- 2\<bar> + 1 / 1000000)
   \<and> N_VWrmsNorm [3, 4] [1, 1] = sqrt (1 / 2 * 25)"
proof -
  have s: "cv_itol cv_mem_example = SS" "cv_reltol cv_mem_example = 1 / 1000"
    "cv_abstol_s cv_mem_example = 1 / 1000000"
    by (simp_all add: cv_mem_example_def)
  have a: "\<forall>i<length [1, - 2::real]. CVEwtSet cv_mem_example [1, - 2] ! i
            = 1 / (cv_reltol cv_mem_example * \<bar>[1, - 2] ! i\<bar> + cv_abstol_s cv_mem_example)"
    using C4_ewt_and_WRMS_norm[of cv_mem_example "[1, -2]"] s(1) by blast
  have a1: "CVEwtSet cv_mem_example [1, -2] ! 1 = 1 / (1 / 1000 * \<bar>- 2\<bar> + 1 / 1000000)"
    using a[rule_format, of 1] by (simp add: s)
  have "N_VWrmsNorm [3, 4] [1, 1]
          = sqrt ((1 / real (length [3, 4::real])) * (\<Sum>i<length [3, 4::real]. ([3, 4] ! i * [1, 1] ! i)\<^sup>2))"
    using C4_ewt_and_WRMS_norm[of cv_mem_example "[]" "[1, 1]" "[3, 4]"] by simp
  also have "(\<Sum>i<length [3, 4::real]. ([3, 4] ! i * [1, 1] ! i)\<^sup>2) = (25::real)"
    by (simp add: lessThan_Suc numeral_2_eq_2)
  finally have n: "N_VWrmsNorm [3, 4] [1, 1] = sqrt (1 / 2 * 25)" by simp
  show ?thesis using s(1) a1 n by blast
qed

section \<open>The step attempt and the error weights\<close>


text \<open>A weight is not positive exactly when its denominator is not positive.\<close>

lemma ewt_component_sign:
  "(1 / (rtol * \<bar>yi\<bar> + atol) \<le> 0) = (rtol * \<bar>yi\<bar> + atol \<le> (0::real))"
  by (simp add: divide_le_0_iff)



lemma CVEwtSet_step_tn: "cv_tn (CVEwtSet_step m) = cv_tn m"
  by (simp add: CVEwtSet_step_def)















section \<open>The Newton corrector and a setup routine that reports stale data\<close>










section \<open>Re-initialisation\<close>

lemma CVodeReInit_heap:
  "snd (snd (CVodeReInit cvode_mem legal t0 y0 itol reltol abstol_s abstol_v))
     = \<lparr>n_malloc = 0, n_free = 0\<rparr>"
  by (simp add: CVodeReInit_def split: option.splits)

text \<open>
  Claim C6. For a memory that \<^verbatim>\<open>CVodeMalloc\<close> has initialised, \<^verbatim>\<open>CVodeReInit\<close> with a
  maximum order larger than the one of the last \<^verbatim>\<open>CVodeMalloc\<close> fails with the value of
  \<open>ILL_INPUT\<close> (\<open>CVREI_ILL_INPUT\<close>, which is the same number) and leaves the memory as it
  was. No call of \<^verbatim>\<open>CVodeReInit\<close> allocates or frees memory. When the inputs are legal,
  the maximum order is no larger than before and \<open>y0\<close> has the dimension of the existing
  columns, the call succeeds and the Nordsieck array is retained: the same number of
  columns, each of the dimension it had, with \<open>y0\<close> in column 0 and the other columns
  untouched.
\<close>

theorem C6_CVodeReInit:
  "(cv_MallocDone m \<and> cv_qmax m > qmax_alloc m \<longrightarrow>
      CVodeReInit (Some m) legal t0 y0 itol reltol abstol_s abstol_v
        = (CVREI_ILL_INPUT, Some m, \<lparr>n_malloc = 0, n_free = 0\<rparr>)
      \<and> CVREI_ILL_INPUT = ILL_INPUT)
   \<and> snd (snd (CVodeReInit cvode_mem legal t0 y0 itol reltol abstol_s abstol_v))
        = \<lparr>n_malloc = 0, n_free = 0\<rparr>
   \<and> (cv_MallocDone m \<and> legal \<and> cv_qmax m \<le> qmax_alloc m \<and> cv_zn m \<noteq> []
        \<and> length y0 = length (cv_zn m ! 0) \<longrightarrow>
      (\<exists>m'. CVodeReInit (Some m) legal t0 y0 itol reltol abstol_s abstol_v
               = (SUCCESS, Some m', \<lparr>n_malloc = 0, n_free = 0\<rparr>)
         \<and> length (cv_zn m') = length (cv_zn m)
         \<and> (\<forall>j<length (cv_zn m). length (cv_zn m' ! j) = length (cv_zn m ! j))
         \<and> cv_zn m' ! 0 = y0
         \<and> (\<forall>j<length (cv_zn m). 0 < j \<longrightarrow> cv_zn m' ! j = cv_zn m ! j)
         \<and> qmax_alloc m' = qmax_alloc m \<and> cv_qmax m' = cv_qmax m \<and> cv_MallocDone m'))"
proof (intro conjI impI)
  assume "cv_MallocDone m \<and> cv_qmax m > qmax_alloc m"
  then show "CVodeReInit (Some m) legal t0 y0 itol reltol abstol_s abstol_v
        = (CVREI_ILL_INPUT, Some m, \<lparr>n_malloc = 0, n_free = 0\<rparr>)"
    by (simp add: CVodeReInit_def)
next
  show "CVREI_ILL_INPUT = ILL_INPUT" by (simp add: CVREI_ILL_INPUT_def ILL_INPUT_def)
next
  show "snd (snd (CVodeReInit cvode_mem legal t0 y0 itol reltol abstol_s abstol_v))
        = \<lparr>n_malloc = 0, n_free = 0\<rparr>"
    by (rule CVodeReInit_heap)
next
  assume h: "cv_MallocDone m \<and> legal \<and> cv_qmax m \<le> qmax_alloc m \<and> cv_zn m \<noteq> []
        \<and> length y0 = length (cv_zn m ! 0)"
  define m' where "m' = m\<lparr>cv_itol := itol, cv_reltol := reltol, cv_abstol_s := abstol_s,
                        cv_abstol_v := abstol_v, cv_zn := (cv_zn m)[0 := y0], cv_q := 1,
                        cv_tn := t0, cv_nst := 0, cv_qu := 0, cv_hu := 0\<rparr>"
  have r: "CVodeReInit (Some m) legal t0 y0 itol reltol abstol_s abstol_v
               = (SUCCESS, Some m', \<lparr>n_malloc = 0, n_free = 0\<rparr>)"
    using h by (simp add: CVodeReInit_def m'_def)
  have z: "cv_zn m' = (cv_zn m)[0 := y0]" by (simp add: m'_def)
  have l: "\<forall>j<length (cv_zn m). length (cv_zn m' ! j) = length (cv_zn m ! j)"
    using h by (simp add: z nth_list_update)
  have k: "\<forall>j<length (cv_zn m). 0 < j \<longrightarrow> cv_zn m' ! j = cv_zn m ! j"
    by (simp add: z nth_list_update)
  have o: "qmax_alloc m' = qmax_alloc m" "cv_qmax m' = cv_qmax m" "cv_MallocDone m'"
    using h by (simp_all add: qmax_alloc_def m'_def)
  have "cv_zn m' ! 0 = y0" using h by (simp add: z)
  then show "\<exists>m'. CVodeReInit (Some m) legal t0 y0 itol reltol abstol_s abstol_v
               = (SUCCESS, Some m', \<lparr>n_malloc = 0, n_free = 0\<rparr>)
         \<and> length (cv_zn m') = length (cv_zn m)
         \<and> (\<forall>j<length (cv_zn m). length (cv_zn m' ! j) = length (cv_zn m ! j))
         \<and> cv_zn m' ! 0 = y0
         \<and> (\<forall>j<length (cv_zn m). 0 < j \<longrightarrow> cv_zn m' ! j = cv_zn m ! j)
         \<and> qmax_alloc m' = qmax_alloc m \<and> cv_qmax m' = cv_qmax m \<and> cv_MallocDone m'"
    using r l k o z by (intro exI[of _ m']) simp
qed

theorem C6_CVodeReInit_witness:
  "cv_MallocDone (cv_mem_example\<lparr>cv_qmax := 5\<rparr>)
   \<and> cv_qmax (cv_mem_example\<lparr>cv_qmax := 5\<rparr>) > qmax_alloc (cv_mem_example\<lparr>cv_qmax := 5\<rparr>)
   \<and> fst (CVodeReInit (Some (cv_mem_example\<lparr>cv_qmax := 5\<rparr>)) True 0 [7, 8] SV (1 / 100) 0 [1, 1])
       = ILL_INPUT
   \<and> cv_qmax cv_mem_example \<le> qmax_alloc cv_mem_example
   \<and> (\<exists>m'. CVodeReInit (Some cv_mem_example) True 0 [7, 8] SV (1 / 100) 0 [1, 1]
              = (SUCCESS, Some m', \<lparr>n_malloc = 0, n_free = 0\<rparr>)
         \<and> length (cv_zn m') = 3 \<and> cv_zn m' ! 0 = [7, 8])"
proof -
  let ?w = "cv_mem_example\<lparr>cv_qmax := 5\<rparr>"
  have w: "cv_MallocDone ?w \<and> cv_qmax ?w > qmax_alloc ?w"
    by (simp add: cv_mem_example_def qmax_alloc_def)
  have g: "cv_MallocDone cv_mem_example \<and> True \<and> cv_qmax cv_mem_example \<le> qmax_alloc cv_mem_example
        \<and> cv_zn cv_mem_example \<noteq> [] \<and> length [7, 8::real] = length (cv_zn cv_mem_example ! 0)"
    by (simp add: cv_mem_example_def qmax_alloc_def)
  have l: "length (cv_zn cv_mem_example) = 3" by (simp add: cv_mem_example_def)
  have a: "fst (CVodeReInit (Some ?w) True 0 [7, 8] SV (1 / 100) 0 [1, 1]) = ILL_INPUT"
    using C6_CVodeReInit[of ?w True 0 "[7, 8]" SV "1 / 100" 0 "[1, 1]" None, THEN conjunct1] w
    by simp
  have b: "\<exists>m'. CVodeReInit (Some cv_mem_example) True 0 [7, 8] SV (1 / 100) 0 [1, 1]
              = (SUCCESS, Some m', \<lparr>n_malloc = 0, n_free = 0\<rparr>)
         \<and> length (cv_zn m') = 3 \<and> cv_zn m' ! 0 = [7, 8]"
    using C6_CVodeReInit[of cv_mem_example True 0 "[7, 8]" SV "1 / 100" 0 "[1, 1]" None,
        THEN conjunct2, THEN conjunct2] g l
    by auto
  show ?thesis using w a b g by blast
qed

end
